theory Spec2Isabelle
  imports Complex_Main "HOL-Library.Sublist"
begin

section \<open>JavaScript primitives used by the analytics code\<close>

text \<open>
  Conventions of the embedding.
  \<^item> A JavaScript number that holds a timestamp, a duration or a counter is an \<open>int\<close>;
    the code only adds, subtracts and compares them and divides by a positive constant
    before rounding, which is exact in doubles below \<open>2^53\<close>. A coordinate, a distance
    or a price is a \<open>number\<close>: an IEEE 754 binary64 value, with the rounding of every
    arithmetic operation, the two zeros, the infinities and \<open>NaN\<close>.
  \<^item> A string is a list of UTF-16 code units below 256 (\<open>char\<close>), which covers ASCII,
    the pound sign \<open>0xA3\<close> and the no-break space \<open>0xA0\<close>.
  \<^item> \<open>T | null\<close> is \<open>T option\<close>.
  \<^item> A thrown exception is the left summand of \<open>js_error + 'a\<close>: a \<open>TypeError\<close> for a
    member access on \<open>null\<close>, a \<open>RangeError\<close> for \<open>toISOString\<close> on an invalid date,
    for an array the engine cannot allocate and for a call with more arguments than the
    engine's stack holds.
  \<^item> A \<open>Map\<close> is an association list in insertion order.
\<close>

datatype js_error = TypeError | RangeError

text \<open>
  Sequencing: the first exception ends the computation.
\<close>

definition js_bind :: "js_error + 'a \<Rightarrow> ('a \<Rightarrow> js_error + 'b) \<Rightarrow> js_error + 'b" where
  "js_bind r f = (case r of Inl e \<Rightarrow> Inl e | Inr v \<Rightarrow> f v)"

text \<open>
  The receiver of a method call, a property read or an index: \<open>null\<close> and \<open>undefined\<close>
  throw a \<open>TypeError\<close>.
\<close>

definition nonNull :: "'a option \<Rightarrow> js_error + 'a" where
  "nonNull x = (case x of None \<Rightarrow> Inl TypeError | Some v \<Rightarrow> Inr v)"

text \<open>
  What the program needs to know about the engine that runs it: the largest number of
  arguments a call \<open>f(...xs)\<close> can pass (beyond it the spread throws a \<open>RangeError\<close>,
  "Maximum call stack size exceeded"), and the longest array \<open>new Array(n).fill(0)\<close>
  can build (beyond it the allocation throws a \<open>RangeError\<close>, "Invalid array length").
  Both depend on the engine and its configuration and are parameters.
\<close>

record Host =
  maxArguments :: nat
  maxArrayLength :: nat

text \<open>\<open>Math.round\<close> rounds to the nearest integer, ties towards plus infinity.\<close>

definition Math_round :: "real \<Rightarrow> int" where
  "Math_round x = \<lfloor>x + 1 / 2\<rfloor>"

definition Math_floor :: "real \<Rightarrow> int" where
  "Math_floor x = \<lfloor>x\<rfloor>"

definition Math_ceil :: "real \<Rightarrow> int" where
  "Math_ceil x = \<lceil>x\<rceil>"

section \<open>Numbers\<close>

text \<open>
  An IEEE 754 binary64 value. \<open>Num x\<close> is the finite double of value \<open>x\<close>, with
  \<open>Num 0\<close> for \<open>+0\<close>; \<open>NegZero\<close> is \<open>-0\<close>.
\<close>

datatype number = NaN | PosInfinity | NegInfinity | NegZero | Num real

text \<open>Rounding to the nearest integer, ties to the even one.\<close>

definition roundHalfEven :: "real \<Rightarrow> int" where
  "roundHalfEven x =
     (let f = \<lfloor>x\<rfloor>; d = x - of_int f
      in if d < 1 / 2 then f else if 1 / 2 < d then f + 1 else if even f then f else f + 1)"

text \<open>
  The distance between neighbouring doubles around a magnitude \<open>m\<close>: the power of two
  \<open>q\<close> with \<open>2^52 \<le> m / q < 2^53\<close>, but \<open>2^-1074\<close> at least (the subnormal range) and
  \<open>2^971\<close> at most (the top binade). The search starts at \<open>q = 1\<close> and halves \<open>q\<close> at
  most 1074 times, or doubles it at most 971 times. \<open>4503599627370496\<close> is \<open>2^52\<close> and
  \<open>9007199254740992\<close> is \<open>2^53\<close>.
\<close>

primrec ulpBelow :: "nat \<Rightarrow> real \<Rightarrow> real \<Rightarrow> real" where
  "ulpBelow 0 m q = q"
| "ulpBelow (Suc n) m q = (if m < 4503599627370496 * q then ulpBelow n m (q / 2) else q)"

primrec ulpAbove :: "nat \<Rightarrow> real \<Rightarrow> real \<Rightarrow> real" where
  "ulpAbove 0 m q = q"
| "ulpAbove (Suc n) m q = (if 9007199254740992 * q \<le> m then ulpAbove n m (2 * q) else q)"

definition ulp :: "real \<Rightarrow> real" where
  "ulp m = (if m < 4503599627370496 then ulpBelow 1074 m 1 else ulpAbove 971 m 1)"

text \<open>The multiple of \<open>ulp m\<close> nearest to \<open>m\<close>, ties to the even multiple.\<close>

definition roundMagnitude :: "real \<Rightarrow> real" where
  "roundMagnitude m = of_int (roundHalfEven (m / ulp m)) * ulp m"

text \<open>
  The double nearest to the real number of magnitude \<open>m \<ge> 0\<close> and the given sign
  (round to nearest, ties to even): an infinity when the rounded magnitude reaches
  \<open>2^1024\<close>, which is the 309-digit numeral below, and a zero of that sign when it
  rounds to nothing.
\<close>

definition roundToDouble :: "bool \<Rightarrow> real \<Rightarrow> number" where
  "roundToDouble negative m =
     (let v = roundMagnitude m
      in if 179769313486231590772930519078902473361797697894230657273430081157732675805500963132708477322407536021120113879871393357658789768814416622492847430639474124377767893424865485276302219601246094119453082952085005768838150682342462881473913110540827237163350510684586298239947245938479716304835356329624224137216 \<le> v
         then (if negative then NegInfinity else PosInfinity)
         else if v = 0 then (if negative then NegZero else Num 0)
         else Num (if negative then - v else v))"

fun negate :: "number \<Rightarrow> number" where
  "negate NaN = NaN"
| "negate PosInfinity = NegInfinity"
| "negate NegInfinity = PosInfinity"
| "negate NegZero = Num 0"
| "negate (Num x) = (if x = 0 then NegZero else Num (- x))"

fun signBit :: "number \<Rightarrow> bool" where
  "signBit NaN = False"
| "signBit PosInfinity = False"
| "signBit NegInfinity = True"
| "signBit NegZero = True"
| "signBit (Num x) = (x < 0)"

fun magnitude :: "number \<Rightarrow> real" where
  "magnitude (Num x) = \<bar>x\<bar>"
| "magnitude _ = 0"

fun realValue :: "number \<Rightarrow> real" where
  "realValue (Num x) = x"
| "realValue _ = 0"

fun isInfinity :: "number \<Rightarrow> bool" where
  "isInfinity PosInfinity = True"
| "isInfinity NegInfinity = True"
| "isInfinity _ = False"

fun isZero :: "number \<Rightarrow> bool" where
  "isZero NegZero = True"
| "isZero (Num x) = (x = 0)"
| "isZero _ = False"


definition infinity :: "bool \<Rightarrow> number" where
  "infinity negative = (if negative then NegInfinity else PosInfinity)"

definition zero :: "bool \<Rightarrow> number" where
  "zero negative = (if negative then NegZero else Num 0)"

text \<open>
  \<open>a + b\<close>: \<open>NaN\<close> for a \<open>NaN\<close> operand and for infinities of opposite sign; an exact
  sum of zero is \<open>+0\<close>, except \<open>-0 + -0 = -0\<close>; any other sum is rounded.
\<close>

definition js_add :: "number \<Rightarrow> number \<Rightarrow> number" where
  "js_add a b =
     (if a = NaN \<or> b = NaN then NaN
      else if isInfinity a then (if isInfinity b \<and> a \<noteq> b then NaN else a)
      else if isInfinity b then b
      else
        (let s = realValue a + realValue b
         in if s = 0 then (if a = NegZero \<and> b = NegZero then NegZero else Num 0)
            else roundToDouble (s < 0) \<bar>s\<bar>))"

text \<open>\<open>a - b\<close> is \<open>a + (-b)\<close>.\<close>

definition js_sub :: "number \<Rightarrow> number \<Rightarrow> number" where
  "js_sub a b = js_add a (negate b)"

text \<open>
  \<open>a * b\<close>: the sign is the exclusive or of the signs, also for a zero result;
  infinity times zero is \<open>NaN\<close>.
\<close>

definition js_mul :: "number \<Rightarrow> number \<Rightarrow> number" where
  "js_mul a b =
     (if a = NaN \<or> b = NaN then NaN
      else if isInfinity a \<or> isInfinity b
      then (if isZero a \<or> isZero b then NaN else infinity (signBit a \<noteq> signBit b))
      else roundToDouble (signBit a \<noteq> signBit b) (magnitude a * magnitude b))"

text \<open>
  \<open>a / b\<close>: infinity over infinity and zero over zero are \<open>NaN\<close>, a non-zero number
  over zero is an infinity.
\<close>

definition js_div :: "number \<Rightarrow> number \<Rightarrow> number" where
  "js_div a b =
     (if a = NaN \<or> b = NaN then NaN
      else if isInfinity a
      then (if isInfinity b then NaN else infinity (signBit a \<noteq> signBit b))
      else if isInfinity b then zero (signBit a \<noteq> signBit b)
      else if isZero b
      then (if isZero a then NaN else infinity (signBit a \<noteq> signBit b))
      else roundToDouble (signBit a \<noteq> signBit b) (magnitude a / magnitude b))"

text \<open>\<open>a < b\<close>, false when an operand is \<open>NaN\<close>; the two zeros are equal.\<close>

definition js_less :: "number \<Rightarrow> number \<Rightarrow> bool" where
  "js_less a b =
     (a \<noteq> NaN \<and> b \<noteq> NaN
      \<and> (if a = PosInfinity \<or> b = NegInfinity then False
          else if a = NegInfinity \<or> b = PosInfinity then True
          else realValue a < realValue b))"


text \<open>\<open>Math.sqrt\<close>, the correctly rounded square root of IEEE 754.\<close>

definition Math_sqrt :: "number \<Rightarrow> number" where
  "Math_sqrt a =
     (case a of
        NaN \<Rightarrow> NaN
      | PosInfinity \<Rightarrow> PosInfinity
      | NegInfinity \<Rightarrow> NaN
      | NegZero \<Rightarrow> NegZero
      | Num x \<Rightarrow> if x < 0 then NaN else roundToDouble False (sqrt x))"

text \<open>\<open>Math.PI\<close>, the double \<open>3.141592653589793\<close>.\<close>

definition Math_PI :: number where
  "Math_PI = Num (884279719003555 / 281474976710656)"

text \<open>
  \<open>Math.sin\<close>, \<open>Math.cos\<close> and \<open>Math.atan2\<close>. ECMAScript fixes their values at
  zeros, infinities and \<open>NaN\<close> and leaves every other value to the implementation
  ("implementation-approximated"), so the three functions are parameters.
\<close>

record MathLib =
  Math_sin :: "number \<Rightarrow> number"
  Math_cos :: "number \<Rightarrow> number"
  Math_atan2 :: "number \<Rightarrow> number \<Rightarrow> number"

section \<open>Data model\<close>

text \<open>\<open>StationSchema\<close> (schemas/station.ts).\<close>

record Station =
  id :: string
  name :: string
  terminalName :: string
  lat :: number
  long :: number
  installed :: bool
  locked :: bool
  installDate :: "int option"
  removalDate :: "int option"
  temporary :: bool
  nbBikes :: int
  nbStandardBikes :: int
  nbEBikes :: int
  nbEmptyDocks :: int
  nbDocks :: int

text \<open>\<open>RideSchema\<close> and its parts (schemas/ride.ts).\<close>

record PriceBreakdownItem =
  title :: "string option"
  amount :: "string option"

record PaymentMethod =
  cardType :: "string option"
  lastFour :: "string option"
  clientPaymentMethod :: "string option"

record Ride =
  rideId :: "string option"
  startTimeMs :: "int option"
  endTimeMs :: "int option"
  startAddress :: "string option"
  endAddress :: "string option"
  price :: "string option"
  priceBreakdown :: "PriceBreakdownItem list option"
  paymentMethod :: "PaymentMethod option"

section \<open>Geodesic distance (RoutesTable.tsx, calculateDistance)\<close>

text \<open>
  The function in its own operations: every \<open>+\<close>, \<open>-\<close>, \<open>*\<close> and \<open>/\<close> is the rounded
  operation on doubles, in the order the expression is evaluated (left to right), and
  \<open>M\<close> is the engine's \<open>Math\<close> library.
\<close>

definition calculateDistance :: "MathLib \<Rightarrow> number \<Rightarrow> number \<Rightarrow> number \<Rightarrow> number \<Rightarrow> number" where
  "calculateDistance M lat1 lon1 lat2 lon2 =
     (let R = Num 6371;
          dLat = js_div (js_mul (js_sub lat2 lat1) Math_PI) (Num 180);
          dLon = js_div (js_mul (js_sub lon2 lon1) Math_PI) (Num 180);
          a = js_add
                (js_mul (Math_sin M (js_div dLat (Num 2))) (Math_sin M (js_div dLat (Num 2))))
                (js_mul
                   (js_mul
                      (js_mul (Math_cos M (js_div (js_mul lat1 Math_PI) (Num 180)))
                              (Math_cos M (js_div (js_mul lat2 Math_PI) (Num 180))))
                      (Math_sin M (js_div dLon (Num 2))))
                   (Math_sin M (js_div dLon (Num 2))));
          c = js_mul (Num 2) (Math_atan2 M (Math_sqrt a) (Math_sqrt (js_sub (Num 1) a)))
      in js_mul R c)"

section \<open>String primitives\<close>

definition isDigit :: "char \<Rightarrow> bool" where
  \<comment> \<open>the RegExp class \<open>\d\<close>\<close>
  "isDigit c = (let n = (of_char c :: nat) in 48 \<le> n \<and> n \<le> 57)"

definition isWhiteSpace :: "char \<Rightarrow> bool" where
  \<comment> \<open>the RegExp class \<open>\s\<close> and the characters \<open>trim\<close> strips, among code units below 256:
      TAB, LF, VT, FF, CR, SPACE and NO-BREAK SPACE\<close>
  "isWhiteSpace c = (let n = (of_char c :: nat) in (9 \<le> n \<and> n \<le> 13) \<or> n = 32 \<or> n = 160)"

definition toLowerCase_char :: "char \<Rightarrow> char" where
  \<comment> \<open>A-Z and the Latin-1 capitals \<open>0xC0..0xDE\<close> (not the multiplication sign \<open>0xD7\<close>)\<close>
  "toLowerCase_char c =
     (let n = (of_char c :: nat)
      in if (65 \<le> n \<and> n \<le> 90) \<or> (192 \<le> n \<and> n \<le> 222 \<and> n \<noteq> 215)
         then char_of (n + 32) else c)"

definition toLowerCase :: "string \<Rightarrow> string" where
  "toLowerCase s = map toLowerCase_char s"

definition trim :: "string \<Rightarrow> string" where
  "trim s = rev (dropWhile isWhiteSpace (rev (dropWhile isWhiteSpace s)))"

text \<open>\<open>s.includes(t)\<close>: \<open>t\<close> occurs in \<open>s\<close> as a contiguous substring.\<close>

fun string_includes :: "string \<Rightarrow> string \<Rightarrow> bool" where
  "string_includes [] t = (t = [])"
| "string_includes (c # cs) t = (prefix t (c # cs) \<or> string_includes cs t)"

text \<open>
  \<open>s.match(/\d{6}/)\<close>: the leftmost six consecutive digits, \<open>None\<close> for a failed match.
\<close>

fun match_6_digits :: "string \<Rightarrow> string option" where
  "match_6_digits [] = None"
| "match_6_digits (c # cs) =
     (let m = take 6 (c # cs)
      in if length m = 6 \<and> list_all isDigit m then Some m else match_6_digits cs)"

text \<open>
  \<open>s.split(/[,\s]+/)\<close>: the pieces between maximal runs of commas and white space.
  A string that starts (ends) with a delimiter yields a leading (trailing) empty piece,
  and the empty string yields one empty piece.
\<close>

definition isDelim :: "char \<Rightarrow> bool" where
  "isDelim c = (c = CHR '','' \<or> isWhiteSpace c)"

function split_words :: "string \<Rightarrow> string list" where
  "split_words s =
     (let w = takeWhile (\<lambda>c. \<not> isDelim c) s;
          r = dropWhile (\<lambda>c. \<not> isDelim c) s
      in if r = [] then [w] else w # split_words (dropWhile isDelim r))"
  by pat_completeness auto
termination
proof (relation "measure length")
  show "wf (measure length)" by simp
next
  fix s :: string and w r
  assume r: "r = dropWhile (\<lambda>c. \<not> isDelim c) s" and ne: "r \<noteq> []"
  have "length (dropWhile isDelim r) \<le> length (tl r)"
  proof (cases r)
    case Nil
    with ne show ?thesis by simp
  next
    case (Cons c cs)
    have "dropWhile (\<lambda>c. \<not> isDelim c) s = c # cs"
      using r Cons by simp
    then have "isDelim c"
      using hd_dropWhile [of "\<lambda>c. \<not> isDelim c" s] by simp
    then show ?thesis
      using Cons length_dropWhile_le [of isDelim cs] by simp
  qed
  moreover have "length (tl r) < length r"
    using ne by (cases r) simp_all
  moreover have "length r \<le> length s"
    using r length_dropWhile_le [of "\<lambda>c. \<not> isDelim c" s] by simp
  ultimately show "(dropWhile isDelim r, s) \<in> measure length"
    by simp
qed

declare split_words.simps [simp del]

section \<open>Station resolver (RoutesTable.tsx, findStationByName)\<close>

text \<open>The first \<open>for\<close> loop: substring containment, returning at the first hit.\<close>

fun exactMatchLoop :: "string \<Rightarrow> Station list \<Rightarrow> Station option" where
  "exactMatchLoop normalizedAddress [] = None"
| "exactMatchLoop normalizedAddress (station # rest) =
     (let stationName = toLowerCase (name station)
      in if string_includes normalizedAddress stationName \<or> string_includes stationName normalizedAddress
         then Some station
         else exactMatchLoop normalizedAddress rest)"

text \<open>The terminal-code step: \<open>match\<close>, then \<open>stations.find\<close>.\<close>

definition terminalMatchStep :: "string \<Rightarrow> Station list \<Rightarrow> Station option" where
  "terminalMatchStep normalizedAddress stations =
     (case match_6_digits normalizedAddress of
        None \<Rightarrow> None
      | Some terminal \<Rightarrow> find (\<lambda>s. terminalName s = terminal) stations)"

text \<open>The second \<open>for\<close> loop: at least two address words match a word of the station name.\<close>

fun wordMatchLoop :: "string list \<Rightarrow> Station list \<Rightarrow> Station option" where
  "wordMatchLoop addressWords [] = None"
| "wordMatchLoop addressWords (station # rest) =
     (let stationWords = split_words (toLowerCase (name station));
          matchingWords =
            filter (\<lambda>aw. list_ex (\<lambda>sw. string_includes sw aw \<or> string_includes aw sw) stationWords)
              addressWords
      in if length matchingWords \<ge> 2 then Some station
         else wordMatchLoop addressWords rest)"

text \<open>\<open>!address\<close> holds for \<open>null\<close> and for the empty string.\<close>

definition findStationByName :: "string option \<Rightarrow> Station list \<Rightarrow> Station option" where
  "findStationByName address stations =
     (case address of
        None \<Rightarrow> None
      | Some a \<Rightarrow>
          if a = [] then None
          else
            let normalizedAddress = trim (toLowerCase a)
            in case exactMatchLoop normalizedAddress stations of
                 Some station \<Rightarrow> Some station
               | None \<Rightarrow>
                   (case terminalMatchStep normalizedAddress stations of
                      Some station \<Rightarrow> Some station
                    | None \<Rightarrow>
                        wordMatchLoop
                          (filter (\<lambda>w. length w > 2) (split_words normalizedAddress))
                          stations))"

text \<open>
  The copy in the statistics cards differs in its first line only:
  \<open>if (!address || stations.length === 0) return null\<close>.
\<close>

definition findStationByName_StatsCards :: "string option \<Rightarrow> Station list \<Rightarrow> Station option" where
  "findStationByName_StatsCards address stations =
     (case address of
        None \<Rightarrow> None
      | Some a \<Rightarrow>
          if a = [] \<or> length stations = 0 then None
          else
            let normalizedAddress = trim (toLowerCase a)
            in case exactMatchLoop normalizedAddress stations of
                 Some station \<Rightarrow> Some station
               | None \<Rightarrow>
                   (case terminalMatchStep normalizedAddress stations of
                      Some station \<Rightarrow> Some station
                    | None \<Rightarrow>
                        wordMatchLoop
                          (filter (\<lambda>w. length w > 2) (split_words normalizedAddress))
                          stations))"

text \<open>
  A station with the given identifier, name, terminal code and finite coordinates, for
  examples.
\<close>

definition mkStation :: "string \<Rightarrow> string \<Rightarrow> string \<Rightarrow> real \<Rightarrow> real \<Rightarrow> Station" where
  "mkStation i n t la lo =
     \<lparr>id = i, name = n, terminalName = t, lat = Num la, long = Num lo, installed = True,
      locked = False, installDate = None, removalDate = None, temporary = False,
      nbBikes = 0, nbStandardBikes = 0, nbEBikes = 0, nbEmptyDocks = 0, nbDocks = 0\<rparr>"

text \<open>A ride with the given addresses and timestamps and nothing else, for examples.\<close>

definition mkRide :: "string option \<Rightarrow> string option \<Rightarrow> int option \<Rightarrow> int option \<Rightarrow> Ride" where
  "mkRide sa ea st et =
     \<lparr>rideId = None, startTimeMs = st, endTimeMs = et, startAddress = sa, endAddress = ea,
      price = None, priceBreakdown = None, paymentMethod = None\<rparr>"

section \<open>The resolver as the specification words it\<close>

text \<open>
  An ordered chain of strategies, the first success winning. The fuzzy strategy takes
  the tokenizer applied to station names as a parameter: \<open>spec_tokens\<close> is "split the
  same way" as the address (delimited tokens of length above 2).
\<close>

fun firstSome :: "'a option list \<Rightarrow> 'a option" where
  "firstSome [] = None"
| "firstSome (x # rest) = (case x of Some y \<Rightarrow> Some y | None \<Rightarrow> firstSome rest)"

definition spec_tokens :: "string \<Rightarrow> string list" where
  "spec_tokens s = filter (\<lambda>w. length w > 2) (split_words s)"

definition spec_substring_strategy :: "string \<Rightarrow> Station list \<Rightarrow> Station option" where
  "spec_substring_strategy a stations =
     find (\<lambda>s. string_includes a (toLowerCase (name s))
               \<or> string_includes (toLowerCase (name s)) a) stations"

definition spec_terminal_strategy :: "string \<Rightarrow> Station list \<Rightarrow> Station option" where
  "spec_terminal_strategy a stations =
     (case match_6_digits a of
        None \<Rightarrow> None
      | Some code \<Rightarrow> find (\<lambda>s. terminalName s = code) stations)"

definition spec_fuzzy_strategy ::
  "(string \<Rightarrow> string list) \<Rightarrow> string \<Rightarrow> Station list \<Rightarrow> Station option" where
  "spec_fuzzy_strategy stationTokens a stations =
     find (\<lambda>s. 2 \<le> length (filter
                   (\<lambda>aw. list_ex (\<lambda>sw. string_includes sw aw \<or> string_includes aw sw)
                           (stationTokens (toLowerCase (name s))))
                   (spec_tokens a))) stations"

definition spec_resolve ::
  "(string \<Rightarrow> string list) \<Rightarrow> string option \<Rightarrow> Station list \<Rightarrow> Station option" where
  "spec_resolve stationTokens address stations =
     (case address of
        None \<Rightarrow> None
      | Some a \<Rightarrow>
          if a = [] then None
          else (let n = trim (toLowerCase a)
                in firstSome [spec_substring_strategy n stations,
                              spec_terminal_strategy n stations,
                              spec_fuzzy_strategy stationTokens n stations]))"

section \<open>Maps in insertion order\<close>

definition map_get :: "('k \<times> 'v) list \<Rightarrow> 'k \<Rightarrow> 'v option" where
  "map_get m k = map_of m k"

text \<open>\<open>Map.set\<close>: an existing key keeps its position, a new key goes last.\<close>

fun map_set :: "('k \<times> 'v) list \<Rightarrow> 'k \<Rightarrow> 'v \<Rightarrow> ('k \<times> 'v) list" where
  "map_set [] k v = [(k, v)]"
| "map_set ((k', v') # m) k v =
     (if k' = k then (k, v) # m else (k', v') # map_set m k v)"

definition map_values :: "('k \<times> 'v) list \<Rightarrow> 'v list" where
  "map_values m = map snd m"

section \<open>Route aggregator (RoutesTable.tsx, routeStats)\<close>

record RouteStats =
  startStation :: Station
  endStation :: Station
  count :: int
  avgDurationMinutes :: "int option"
  minDurationMinutes :: "int option"
  maxDurationMinutes :: "int option"
  distanceKm :: number

text \<open>The template literal \<open>`${startStation.id}-${endStation.id}`\<close>.\<close>

definition routeKey :: "Station \<Rightarrow> Station \<Rightarrow> string" where
  "routeKey startSt endSt = Station.id startSt @ ''-'' @ Station.id endSt"

definition rideDurationMinutes :: "Ride \<Rightarrow> int option" where
  "rideDurationMinutes ride =
     (case startTimeMs ride of
        None \<Rightarrow> None
      | Some s \<Rightarrow>
          (case endTimeMs ride of
             None \<Rightarrow> None
           | Some e \<Rightarrow>
               (let durationMs = e - s
                in Some (Math_round (real_of_int durationMs / 60000)))))"

text \<open>The branch \<open>if (existing)\<close>: the entry is mutated in place.\<close>

definition updateExisting :: "RouteStats \<Rightarrow> int option \<Rightarrow> RouteStats" where
  "updateExisting existing durationMinutes =
     (let e1 = existing\<lparr>count := count existing + 1\<rparr>
      in case durationMinutes of
           None \<Rightarrow> e1
         | Some d \<Rightarrow>
             (let e2 = (case avgDurationMinutes e1 of
                          None \<Rightarrow> e1\<lparr>avgDurationMinutes := Some d\<rparr>
                        | Some avg \<Rightarrow>
                            (let totalDuration = avg * (count e1 - 1) + d
                             in e1\<lparr>avgDurationMinutes :=
                                      Some (Math_round (real_of_int totalDuration
                                                        / real_of_int (count e1)))\<rparr>));
                  e3 = (case minDurationMinutes e2 of
                          None \<Rightarrow> e2\<lparr>minDurationMinutes := Some d\<rparr>
                        | Some mn \<Rightarrow>
                            if d < mn then e2\<lparr>minDurationMinutes := Some d\<rparr> else e2);
                  e4 = (case maxDurationMinutes e3 of
                          None \<Rightarrow> e3\<lparr>maxDurationMinutes := Some d\<rparr>
                        | Some mx \<Rightarrow>
                            if d > mx then e3\<lparr>maxDurationMinutes := Some d\<rparr> else e3)
              in e4))"

text \<open>The body of \<open>rides.forEach\<close>.\<close>

definition routeStep ::
  "MathLib \<Rightarrow> Station list \<Rightarrow> (string \<times> RouteStats) list \<Rightarrow> Ride
    \<Rightarrow> (string \<times> RouteStats) list" where
  "routeStep M stations routesMap ride =
     (case findStationByName (startAddress ride) stations of
        None \<Rightarrow> routesMap
      | Some startSt \<Rightarrow>
          (case findStationByName (endAddress ride) stations of
             None \<Rightarrow> routesMap
           | Some endSt \<Rightarrow>
               (let key = routeKey startSt endSt;
                    existing = map_get routesMap key;
                    dist = calculateDistance M (lat startSt) (long startSt)
                             (lat endSt) (long endSt);
                    durationMinutes = rideDurationMinutes ride
                in case existing of
                     Some ex \<Rightarrow> map_set routesMap key (updateExisting ex durationMinutes)
                   | None \<Rightarrow>
                       map_set routesMap key
                         \<lparr>startStation = startSt, endStation = endSt, count = 1,
                          avgDurationMinutes = durationMinutes,
                          minDurationMinutes = durationMinutes,
                          maxDurationMinutes = durationMinutes,
                          distanceKm = dist\<rparr>)))"

definition routesMapOf ::
  "MathLib \<Rightarrow> Ride list \<Rightarrow> Station list \<Rightarrow> (string \<times> RouteStats) list" where
  "routesMapOf M rides stations = foldl (routeStep M stations) [] rides"

definition routeStats :: "MathLib \<Rightarrow> Ride list \<Rightarrow> Station list \<Rightarrow> RouteStats list" where
  "routeStats M rides stations = map_values (routesMapOf M rides stations)"

section \<open>Station aggregator (RoutesTable.tsx, StationsTable, stationStats)\<close>

record StationStats =
  station :: Station
  pickups :: int
  dropoffs :: int
  total :: int
  net :: int

text \<open>The first \<open>forEach\<close>: every station starts with zero counters.\<close>

definition initStationStats :: "Station list \<Rightarrow> (string \<times> StationStats) list" where
  "initStationStats stations =
     foldl (\<lambda>statsMap st.
              map_set statsMap (Station.id st)
                \<lparr>station = st, pickups = 0, dropoffs = 0, total = 0, net = 0\<rparr>)
       [] stations"

definition countPickup :: "Station list \<Rightarrow> (string \<times> StationStats) list \<Rightarrow> Ride
    \<Rightarrow> (string \<times> StationStats) list" where
  "countPickup stations statsMap ride =
     (case findStationByName (startAddress ride) stations of
        None \<Rightarrow> statsMap
      | Some startSt \<Rightarrow>
          (case map_get statsMap (Station.id startSt) of
             None \<Rightarrow> statsMap
           | Some stats \<Rightarrow>
               map_set statsMap (Station.id startSt)
                 (stats\<lparr>pickups := pickups stats + 1,
                        total := StationStats.total stats + 1,
                        net := net stats + 1\<rparr>)))"

definition countDropoff :: "Station list \<Rightarrow> (string \<times> StationStats) list \<Rightarrow> Ride
    \<Rightarrow> (string \<times> StationStats) list" where
  "countDropoff stations statsMap ride =
     (case findStationByName (endAddress ride) stations of
        None \<Rightarrow> statsMap
      | Some endSt \<Rightarrow>
          (case map_get statsMap (Station.id endSt) of
             None \<Rightarrow> statsMap
           | Some stats \<Rightarrow>
               map_set statsMap (Station.id endSt)
                 (stats\<lparr>dropoffs := dropoffs stats + 1,
                        total := StationStats.total stats + 1,
                        net := net stats - 1\<rparr>)))"

text \<open>The body of the second \<open>forEach\<close>: the pick-up, then the drop-off.\<close>

definition stationStep :: "Station list \<Rightarrow> (string \<times> StationStats) list \<Rightarrow> Ride
    \<Rightarrow> (string \<times> StationStats) list" where
  "stationStep stations statsMap ride =
     countDropoff stations (countPickup stations statsMap ride) ride"

definition stationStats :: "Ride list \<Rightarrow> Station list \<Rightarrow> StationStats list" where
  "stationStats rides stations =
     map_values (foldl (stationStep stations) (initStationStats stations) rides)"

section \<open>Numbers as strings\<close>

text \<open>
  The decimal form a template literal gives an integer (below \<open>10^21\<close> in magnitude,
  where JavaScript switches to exponent notation).
\<close>

definition digitChar :: "nat \<Rightarrow> char" where
  "digitChar n = char_of (48 + n)"

function showNat :: "nat \<Rightarrow> string" where
  "showNat n = (if n < 10 then [digitChar n] else showNat (n div 10) @ [digitChar (n mod 10)])"
  by pat_completeness auto
termination
  by (relation "measure (\<lambda>n. n)") auto

declare showNat.simps [simp del]

definition showInt :: "int \<Rightarrow> string" where
  "showInt i = (if i < 0 then CHR ''-'' # showNat (nat (- i)) else showNat (nat i))"

section \<open>Duration histogram (RidesOverTimeHistogram.tsx, JourneyTimeHistogram)\<close>

datatype BucketWidth = W15s | W30s | W1m | W2m | W5m

fun bucketWidthSeconds :: "BucketWidth \<Rightarrow> int" where
  "bucketWidthSeconds W15s = 15"
| "bucketWidthSeconds W30s = 30"
| "bucketWidthSeconds W1m = 60"
| "bucketWidthSeconds W2m = 120"
| "bucketWidthSeconds W5m = 300"

definition hasDuration :: "Ride \<Rightarrow> bool" where
  "hasDuration r = (startTimeMs r \<noteq> None \<and> endTimeMs r \<noteq> None)"

definition ridesWithDuration :: "Ride list \<Rightarrow> Ride list" where
  "ridesWithDuration rides = filter hasDuration rides"

text \<open>\<open>x || 0\<close> on \<open>number | null\<close>: null and 0 both give 0.\<close>

definition orZero :: "int option \<Rightarrow> int" where
  "orZero x = (case x of None \<Rightarrow> 0 | Some v \<Rightarrow> v)"

definition durationsSeconds :: "Ride list \<Rightarrow> int list" where
  "durationsSeconds rides =
     map (\<lambda>r. let durationMs = orZero (endTimeMs r) - orZero (startTimeMs r)
              in Math_floor (real_of_int durationMs / 1000))
       (ridesWithDuration rides)"

text \<open>
  \<open>Math.min(...xs)\<close> and \<open>Math.max(...xs)\<close> of at least one number. The spread passes
  one argument for each element, so the call throws when the list is longer than the
  engine's argument limit.
\<close>

definition Math_min :: "Host \<Rightarrow> int \<Rightarrow> int list \<Rightarrow> js_error + int" where
  "Math_min host x xs =
     (if length (x # xs) > maxArguments host then Inl RangeError else Inr (foldl min x xs))"

definition Math_max :: "Host \<Rightarrow> int \<Rightarrow> int list \<Rightarrow> js_error + int" where
  "Math_max host x xs =
     (if length (x # xs) > maxArguments host then Inl RangeError else Inr (foldl max x xs))"

text \<open>The label of the bin that starts at \<open>binStartSeconds\<close>.\<close>

definition binLabel :: "BucketWidth \<Rightarrow> int \<Rightarrow> string" where
  "binLabel bucketWidth binStartSeconds =
     (let binEndSeconds = binStartSeconds + bucketWidthSeconds bucketWidth
      in if bucketWidth = W15s \<or> bucketWidth = W30s
         then showInt binStartSeconds @ ''s-'' @ showInt binEndSeconds @ ''s''
         else
           (let binStartMinutes = Math_floor (real_of_int binStartSeconds / 60);
                binEndMinutes = Math_floor (real_of_int binEndSeconds / 60)
            in if bucketWidth = W1m then showInt binStartMinutes @ '' min''
               else if binStartMinutes = binEndMinutes then showInt binStartMinutes @ '' min''
               else showInt binStartMinutes @ ''-'' @ showInt binEndMinutes @ '' min''))"

definition numBins :: "int \<Rightarrow> int \<Rightarrow> int \<Rightarrow> int" where
  "numBins minDurationSeconds maxDurationSeconds bucketSizeSeconds =
     Math_ceil (real_of_int (maxDurationSeconds - minDurationSeconds)
                / real_of_int bucketSizeSeconds) + 1"

text \<open>
  \<open>bins[i]++\<close>. The index the code passes is always within the array (lemma
  \<open>binIndex_in_range\<close> below); outside it JavaScript would add a property holding
  \<open>NaN\<close>, which the model has no value for, and the array is left as it is.
\<close>

definition incrementBin :: "int list \<Rightarrow> int \<Rightarrow> int list" where
  "incrementBin bins i =
     (if 0 \<le> i \<and> i < int (length bins) then bins[nat i := bins ! nat i + 1] else bins)"

definition binIndex :: "int \<Rightarrow> int \<Rightarrow> int \<Rightarrow> int" where
  "binIndex minDurationSeconds bucketSizeSeconds durationSeconds =
     Math_floor (real_of_int (durationSeconds - minDurationSeconds) / real_of_int bucketSizeSeconds)"

text \<open>
  What the chart receives: \<open>labels\<close> and \<open>datasets[0].data\<close> (the other fields of the
  result are constant colours and captions).
\<close>

record ChartData =
  labels :: "string list"
  data :: "int list"

text \<open>
  \<open>new Array(n).fill(0)\<close> for an integer \<open>n \<ge> 0\<close>: a \<open>RangeError\<close> for a length above
  \<open>2^32 - 1\<close>, which no engine accepts, and for a length above what this engine can
  allocate.
\<close>

definition newArrayFill0 :: "Host \<Rightarrow> int \<Rightarrow> js_error + int list" where
  "newArrayFill0 host n =
     (if n > 4294967295 \<or> nat n > maxArrayLength host then Inl RangeError
      else Inr (replicate (nat n) 0))"

text \<open>
  The \<open>useMemo\<close> body, statement by statement: \<open>Inr None\<close> is \<open>return null\<close>.
\<close>

definition chartData :: "Host \<Rightarrow> BucketWidth \<Rightarrow> Ride list \<Rightarrow> js_error + ChartData option" where
  "chartData host bucketWidth rides =
     (case durationsSeconds rides of
        [] \<Rightarrow> Inr None
      | d # ds \<Rightarrow>
          js_bind (Math_min host d ds) (\<lambda>minDurationSeconds.
          js_bind (Math_max host d ds) (\<lambda>maxDurationSeconds.
            let bucketSizeSeconds = bucketWidthSeconds bucketWidth;
                n = numBins minDurationSeconds maxDurationSeconds bucketSizeSeconds
            in js_bind (newArrayFill0 host n) (\<lambda>bins0.
                 let binLabels =
                       map (\<lambda>i. binLabel bucketWidth (minDurationSeconds + int i * bucketSizeSeconds))
                         [0..<nat n];
                     bins =
                       foldl (\<lambda>bins durationSeconds.
                                incrementBin bins
                                  (min (binIndex minDurationSeconds bucketSizeSeconds durationSeconds)
                                       (n - 1)))
                         bins0 (d # ds)
                 in Inr (Some \<lparr>labels = binLabels, data = bins\<rparr>)))))"

section \<open>Summary statistics (StatsCards, the stats useMemo)\<close>

subsection \<open>Prices\<close>

definition poundSign :: char where
  "poundSign = char_of (163 :: nat)"

definition isPriceChar :: "char \<Rightarrow> bool" where
  \<comment> \<open>the class \<open>[\d.]\<close>\<close>
  "isPriceChar c = (isDigit c \<or> c = CHR ''.'')"

text \<open>
  One attempt of \<open>/\<pounds>?([\d.]+)/\<close> at the start of \<open>s\<close>, returning group 1: the optional
  pound sign is taken when it is there, and given back when no price character follows.
\<close>

definition priceMatchAt :: "string \<Rightarrow> string option" where
  "priceMatchAt s =
     (let withoutPound = (if takeWhile isPriceChar s \<noteq> [] then Some (takeWhile isPriceChar s)
                          else None)
      in case s of
           [] \<Rightarrow> withoutPound
         | c # cs \<Rightarrow>
             if c = poundSign \<and> takeWhile isPriceChar cs \<noteq> []
             then Some (takeWhile isPriceChar cs)
             else withoutPound)"

text \<open>\<open>s.match(/\<pounds>?([\d.]+)/)\<close>: the leftmost position where an attempt succeeds.\<close>

fun priceMatch :: "string \<Rightarrow> string option" where
  "priceMatch [] = None"
| "priceMatch (c # cs) =
     (case priceMatchAt (c # cs) of Some g \<Rightarrow> Some g | None \<Rightarrow> priceMatch cs)"

definition digitsValue :: "string \<Rightarrow> nat" where
  "digitsValue ds = foldl (\<lambda>n c. 10 * n + (of_char c - 48)) 0 ds"

text \<open>
  \<open>parseFloat\<close> on a string of digits and dots, the only strings group 1 can hold:
  the longest prefix of the form digits, digits-dot-digits or dot-digits is read as a
  decimal and rounded to the nearest double; \<open>NaN\<close> when there is no digit.
\<close>

definition parseFloat :: "string \<Rightarrow> number" where
  "parseFloat s =
     (let intPart = takeWhile isDigit s;
          rest = dropWhile isDigit s;
          fracPart = (case rest of
                        [] \<Rightarrow> []
                      | c # cs \<Rightarrow> if c = CHR ''.'' then takeWhile isDigit cs else [])
      in if intPart = [] \<and> fracPart = [] then NaN
         else roundToDouble False
                (real (digitsValue intPart) + real (digitsValue fracPart) / 10 ^ length fracPart))"

text \<open>\<open>!x\<close> for \<open>x : string | null\<close>: true for \<open>null\<close> and for the empty string.\<close>

definition falsy :: "string option \<Rightarrow> bool" where
  "falsy x = (x = None \<or> x = Some [])"

text \<open>
  \<open>Array.prototype.filter\<close> and \<open>Array.prototype.reduce\<close> with a callback that may
  throw: the exception of the first call that throws leaves the loop.
\<close>

fun Array_filter :: "('a \<Rightarrow> js_error + bool) \<Rightarrow> 'a list \<Rightarrow> js_error + 'a list" where
  "Array_filter f [] = Inr []"
| "Array_filter f (x # xs) =
     (case f x of
        Inl e \<Rightarrow> Inl e
      | Inr keep \<Rightarrow>
          (case Array_filter f xs of
             Inl e \<Rightarrow> Inl e
           | Inr rest \<Rightarrow> Inr (if keep then x # rest else rest)))"

fun Array_reduce :: "('b \<Rightarrow> 'a \<Rightarrow> js_error + 'b) \<Rightarrow> 'b \<Rightarrow> 'a list \<Rightarrow> js_error + 'b" where
  "Array_reduce f acc [] = Inr acc"
| "Array_reduce f acc (x # xs) =
     (case f acc x of Inl e \<Rightarrow> Inl e | Inr acc' \<Rightarrow> Array_reduce f acc' xs)"

text \<open>
  The callback of \<open>rides.filter\<close>. \<open>r.price.match(...)\<close> reads a member of \<open>r.price\<close>
  and \<open>priceMatch[1]\<close> one of \<open>priceMatch\<close>, each of which may be \<open>null\<close> by its type;
  \<open>priceValue > 0\<close> is false for \<open>NaN\<close>.
\<close>

definition hasPaidPrice :: "Ride \<Rightarrow> js_error + bool" where
  "hasPaidPrice r =
     (if falsy (price r) \<or> price r = None then Inr False
      else
        js_bind (nonNull (price r)) (\<lambda>p.
          let m = priceMatch p
          in if m = None then Inr False
             else js_bind (nonNull m) (\<lambda>g.
                    let priceValue = parseFloat g
                    in Inr (js_less (Num 0) priceValue))))"

definition ridesWithPrice :: "Ride list \<Rightarrow> js_error + Ride list" where
  "ridesWithPrice rides = Array_filter hasPaidPrice rides"

text \<open>The callback of \<open>ridesWithPrice.reduce\<close>.\<close>

definition spendStep :: "number \<Rightarrow> Ride \<Rightarrow> js_error + number" where
  "spendStep acc r =
     (if falsy (price r) then Inr acc
      else
        js_bind (nonNull (price r)) (\<lambda>p.
          let m = priceMatch p
          in if m = None then Inr acc
             else js_bind (nonNull m) (\<lambda>g. Inr (js_add acc (parseFloat g)))))"

definition totalSpentAmount :: "Ride list \<Rightarrow> js_error + number" where
  "totalSpentAmount rides =
     js_bind (ridesWithPrice rides) (\<lambda>paid. Array_reduce spendStep (Num 0) paid)"

definition totalSpentRides :: "Ride list \<Rightarrow> js_error + nat" where
  "totalSpentRides rides = js_bind (ridesWithPrice rides) (\<lambda>paid. Inr (length paid))"

subsection \<open>Rides per day, streaks and breaks\<close>

text \<open>
  \<open>new Date(t).toISOString().split("T")[0]\<close>. \<open>toISOString\<close> throws a \<open>RangeError\<close>
  on an invalid date, which \<open>new Date(t)\<close> is for \<open>|t| > 8.64e15\<close>. The key is the UTC
  date \<open>YYYY-MM-DD\<close>; the model holds the number of that day since the epoch, which
  determines the string and is determined by it.
\<close>

definition dateKey :: "int \<Rightarrow> js_error + int" where
  "dateKey t =
     (if \<bar>t\<bar> \<le> 8640000000000000 then Inr (t div 86400000) else Inl RangeError)"

text \<open>\<open>new Date(dateKey).getTime()\<close>: midnight UTC of that day.\<close>

definition dateOfKey :: "int \<Rightarrow> int" where
  "dateOfKey k = k * 86400000"

text \<open>
  The loop filling \<open>ridesByDate\<close>; an exception ends it. A stored count is at least 1,
  so \<open>get(dateKey) || 0\<close> is 0 for a missing key only.
\<close>

fun ridesByDateLoop :: "(int \<times> int) list \<Rightarrow> Ride list \<Rightarrow> js_error + (int \<times> int) list" where
  "ridesByDateLoop ridesByDate [] = Inr ridesByDate"
| "ridesByDateLoop ridesByDate (ride # rest) =
     (case startTimeMs ride of
        None \<Rightarrow> ridesByDateLoop ridesByDate rest
      | Some t \<Rightarrow>
          (case dateKey t of
             Inl e \<Rightarrow> Inl e
           | Inr k \<Rightarrow>
               ridesByDateLoop
                 (map_set ridesByDate k
                    ((case map_get ridesByDate k of None \<Rightarrow> 0 | Some c \<Rightarrow> c) + 1))
                 rest))"

definition rideDates :: "(int \<times> int) list \<Rightarrow> int list" where
  "rideDates ridesByDate = sort (map (\<lambda>(k, c). dateOfKey k) ridesByDate)"

text \<open>
  The \<open>for\<close> loop over \<open>i = 1 .. length - 1\<close>, with \<open>prevDate = rideDates[i - 1]\<close> and
  the dates from index \<open>i\<close> on; the state is \<open>currentStreak\<close>, \<open>longestStreak\<close>,
  \<open>longestBreakDays\<close>.
\<close>

fun streakLoop :: "int \<Rightarrow> int list \<Rightarrow> int \<Rightarrow> int \<Rightarrow> int option \<Rightarrow> int \<times> int option" where
  "streakLoop prevDate [] currentStreak longestStreak longestBreakDays =
     (longestStreak, longestBreakDays)"
| "streakLoop prevDate (currDate # rest) currentStreak longestStreak longestBreakDays =
     (let daysDiff = Math_floor (real_of_int (currDate - prevDate) / (1000 * 60 * 60 * 24));
          currentStreak' = (if daysDiff = 1 then currentStreak + 1 else 1);
          longestStreak' = (if daysDiff = 1 then max longestStreak (currentStreak + 1)
                            else longestStreak);
          breakDays = daysDiff - 1;
          longestBreakDays' =
            (if breakDays > 0
                \<and> (case longestBreakDays of None \<Rightarrow> True | Some b \<Rightarrow> breakDays > b)
             then Some breakDays else longestBreakDays)
      in streakLoop currDate rest currentStreak' longestStreak' longestBreakDays')"

text \<open>\<open>longestStreak\<close> and \<open>longestBreakDays\<close>; the loop runs if \<open>rideDates.length > 1\<close>.\<close>

definition streakStats :: "int list \<Rightarrow> int \<times> int option" where
  "streakStats dates =
     (case dates of
        d0 # d1 # rest \<Rightarrow> streakLoop d0 (d1 # rest) 1 1 None
      | _ \<Rightarrow> (0, None))"

definition longestStreak :: "Ride list \<Rightarrow> js_error + int" where
  "longestStreak rides =
     (case ridesByDateLoop [] rides of
        Inl e \<Rightarrow> Inl e
      | Inr ridesByDate \<Rightarrow> Inr (fst (streakStats (rideDates ridesByDate))))"

definition longestBreakDays :: "Ride list \<Rightarrow> js_error + int option" where
  "longestBreakDays rides =
     (case ridesByDateLoop [] rides of
        Inl e \<Rightarrow> Inl e
      | Inr ridesByDate \<Rightarrow> Inr (snd (streakStats (rideDates ridesByDate))))"

section \<open>Predicates and example data used in the statements\<close>

definition resolves :: "Station list \<Rightarrow> string option \<Rightarrow> bool" where
  "resolves stations address = (findStationByName address stations \<noteq> None)"

definition bothResolve :: "Station list \<Rightarrow> Ride \<Rightarrow> bool" where
  "bothResolve stations ride =
     (resolves stations (startAddress ride) \<and> resolves stations (endAddress ride))"

text \<open>
  What the station aggregator maintains: every station of the directory has an entry,
  and every entry satisfies the two equations between its counters.
\<close>

definition statsMapOk :: "Station list \<Rightarrow> (string \<times> StationStats) list \<Rightarrow> bool" where
  "statsMapOk stations m =
     (Station.id ` set stations \<subseteq> fst ` set m
      \<and> (\<forall>e \<in> set (map_values m).
            StationStats.total e = pickups e + dropoffs e \<and> net e = pickups e - dropoffs e))"

text \<open>The two stations of the specification's scenario, and rides between them.\<close>

definition stationA :: Station where
  "stationA = mkStation ''1'' ''Station A'' ''000001'' 51.5 (- 0.125)"

definition stationB :: Station where
  "stationB = mkStation ''2'' ''Station B'' ''000002'' 51.625 (- 0.0625)"

definition exampleStations :: "Station list" where
  "exampleStations = [stationA, stationB]"

definition rideAB :: "int option \<Rightarrow> int option \<Rightarrow> Ride" where
  "rideAB st et = mkRide (Some ''Station A'') (Some ''Station B'') st et"

definition exampleRides :: "Ride list" where
  "exampleRides =
     [rideAB (Some 0) (Some 600000),
      rideAB None None,
      mkRide (Some ''Nowhere'') (Some ''Station B'') (Some 0) (Some 1),
      mkRide (Some ''Station B'') (Some ''Station A'') None (Some 5)]"

text \<open>
  What a ride's price parses to: nothing when the price is null or the pattern finds no
  match in it, else the value of \<open>parseFloat\<close> on group 1, which is \<open>NaN\<close> when the
  group holds no digit. The rides the claim excludes are those with a null price, an
  unparseable price or a price that parses to zero.
\<close>

definition parsedPrice :: "Ride \<Rightarrow> number option" where
  "parsedPrice r =
     (case price r of
        None \<Rightarrow> None
      | Some p \<Rightarrow> (case priceMatch p of None \<Rightarrow> None | Some g \<Rightarrow> Some (parseFloat g)))"

definition excludedFromSpend :: "Ride \<Rightarrow> bool" where
  "excludedFromSpend r =
     (price r = None \<or> parsedPrice r = None \<or> parsedPrice r = Some NaN
      \<or> parsedPrice r = Some (Num 0))"

definition priceValue :: "Ride \<Rightarrow> number" where
  "priceValue r = (case parsedPrice r of None \<Rightarrow> NaN | Some v \<Rightarrow> v)"

text \<open>
  The prices of the rides that are not excluded, in the order of the rides, and the sum
  of a list of doubles added from left to right, starting from \<open>0\<close>.
\<close>

definition paidPrices :: "Ride list \<Rightarrow> number list" where
  "paidPrices rides = map priceValue (filter (\<lambda>r. \<not> excludedFromSpend r) rides)"

definition sumLeftToRight :: "number list \<Rightarrow> number" where
  "sumLeftToRight xs = foldl js_add (Num 0) xs"

definition pricedRide :: "string option \<Rightarrow> Ride" where
  "pricedRide p = (mkRide None None None None)\<lparr>price := p\<rparr>"

definition examplePricedRides :: "Ride list" where
  "examplePricedRides =
     [pricedRide (Some (poundSign # ''0.10'')), pricedRide (Some (poundSign # ''0.00'')),
      pricedRide (Some ''free''), pricedRide None, pricedRide (Some ''0.20.3 GBP'')]"

text \<open>
  An engine for the examples: calls with up to 65535 arguments, arrays of up to
  \<open>2^27 - 1\<close> elements.
\<close>

definition exampleHost :: Host where
  "exampleHost = \<lparr>maxArguments = 65535, maxArrayLength = 134217727\<rparr>"


text \<open>
  A \<open>Math\<close> library for the examples: the one that returns the double nearest to the
  exact result, with the values ECMAScript fixes at zeros, infinities and \<open>NaN\<close>.
  \<open>atan2_real y x\<close> is the angle of the point \<open>(x, y)\<close>.
\<close>

definition atan2_real :: "real \<Rightarrow> real \<Rightarrow> real" where
  "atan2_real y x =
     (if 0 < x then arctan (y / x)
      else if x < 0 \<and> 0 \<le> y then arctan (y / x) + pi
      else if x < 0 \<and> y < 0 then arctan (y / x) - pi
      else if 0 < y then pi / 2
      else if y < 0 then - (pi / 2)
      else 0)"

definition roundReal :: "real \<Rightarrow> number" where
  "roundReal x = roundToDouble (x < 0) \<bar>x\<bar>"

definition correctSin :: "number \<Rightarrow> number" where
  "correctSin x =
     (case x of
        Num r \<Rightarrow> roundToDouble (sin r < 0 \<or> (sin r = 0 \<and> r < 0)) \<bar>sin r\<bar>
      | NegZero \<Rightarrow> NegZero
      | _ \<Rightarrow> NaN)"

definition correctCos :: "number \<Rightarrow> number" where
  "correctCos x =
     (case x of
        Num r \<Rightarrow> roundReal (cos r)
      | NegZero \<Rightarrow> Num 1
      | _ \<Rightarrow> NaN)"

definition correctAtan2Pos :: "number \<Rightarrow> number \<Rightarrow> number" where
  "correctAtan2Pos y x =
     (if x = NaN then NaN
      else if y = PosInfinity
      then (if x = PosInfinity then roundReal (pi / 4)
            else if x = NegInfinity then roundReal (3 * pi / 4)
            else roundReal (pi / 2))
      else if x = PosInfinity then Num 0
      else if x = NegInfinity then roundReal pi
      else if isZero y then (if signBit x then roundReal pi else Num 0)
      else roundReal (atan2_real (magnitude y) (realValue x)))"

definition correctAtan2 :: "number \<Rightarrow> number \<Rightarrow> number" where
  "correctAtan2 y x =
     (if y = NaN then NaN
      else if signBit y then negate (correctAtan2Pos (negate y) x)
      else correctAtan2Pos y x)"

definition correctlyRoundedMath :: MathLib where
  "correctlyRoundedMath =
     \<lparr>Math_sin = correctSin, Math_cos = correctCos, Math_atan2 = correctAtan2\<rparr>"

text \<open>
  A ride with no start time, or with a valid start time on the UTC day number \<open>d\<close>.
\<close>

definition onDay :: "int \<Rightarrow> Ride \<Rightarrow> bool" where
  "onDay d r =
     (case startTimeMs r of
        None \<Rightarrow> True
      | Some t \<Rightarrow> \<bar>t\<bar> \<le> 8640000000000000 \<and> t div 86400000 = d)"

text \<open>
  The UTC day numbers of the rides that have a start time, and a run of \<open>n\<close>
  consecutive days from day \<open>d\<close> on that all belong to a set of days.
\<close>

definition rideDayList :: "Ride list \<Rightarrow> int list" where
  "rideDayList rides = map (\<lambda>t. t div 86400000) (List.map_filter startTimeMs rides)"

definition isStreak :: "int set \<Rightarrow> int \<Rightarrow> nat \<Rightarrow> bool" where
  "isStreak D d n = (\<forall>i<n. d + int i \<in> D)"

text \<open>
  The bins of the duration histogram, as the statements name them; the minimum and the
  maximum are those of a ride list with at least one duration.
\<close>

definition minDuration :: "Ride list \<Rightarrow> int" where
  "minDuration rides = Min (set (durationsSeconds rides))"

definition maxDuration :: "Ride list \<Rightarrow> int" where
  "maxDuration rides = Max (set (durationsSeconds rides))"

definition binCount :: "BucketWidth \<Rightarrow> Ride list \<Rightarrow> int" where
  "binCount w rides = numBins (minDuration rides) (maxDuration rides) (bucketWidthSeconds w)"

definition binStart :: "BucketWidth \<Rightarrow> Ride list \<Rightarrow> nat \<Rightarrow> int" where
  "binStart w rides i = minDuration rides + int i * bucketWidthSeconds w"

definition inBin :: "BucketWidth \<Rightarrow> Ride list \<Rightarrow> nat \<Rightarrow> int \<Rightarrow> bool" where
  "inBin w rides i d = (binStart w rides i \<le> d \<and> d < binStart w rides (i + 1))"

definition failingHistogramRides :: "Ride list" where
  "failingHistogramRides =
     [mkRide None None (Some 0) (Some 65000), mkRide None None (Some 0) (Some 200000)]"

text \<open>Every start time is a valid time value of a \<open>Date\<close>.\<close>

definition timestampsValid :: "Ride list \<Rightarrow> bool" where
  "timestampsValid rides =
     list_all (\<lambda>r. case startTimeMs r of None \<Rightarrow> True | Some t \<Rightarrow> \<bar>t\<bar> \<le> 8640000000000000) rides"

section \<open>Properties of rounding and of the arithmetic operations\<close>

lemma roundHalfEven_0: "roundHalfEven 0 = 0"
  by (simp add: roundHalfEven_def)

lemma roundMagnitude_0: "roundMagnitude 0 = 0"
  by (simp add: roundMagnitude_def roundHalfEven_0)

lemma roundToDouble_0: "roundToDouble s 0 = zero s"
  by (simp add: roundToDouble_def roundMagnitude_0 zero_def)












lemma xor_not_left: "((\<not> p) \<noteq> q) = (\<not> (p \<noteq> q))"
  by auto









lemma roundHalfEven_ge: "of_int N \<le> x \<Longrightarrow> N \<le> roundHalfEven x"
proof -
  assume "of_int N \<le> x"
  then have "N \<le> \<lfloor>x\<rfloor>" by (simp add: le_floor_iff)
  then show ?thesis by (simp add: roundHalfEven_def Let_def)
qed


lemma ulpBelow_pow:
  "\<exists>k\<le>n. ulpBelow n m q = q / 2 ^ k"
proof (induction n arbitrary: q)
  case 0
  show ?case by simp
next
  case (Suc n)
  show ?case
  proof (cases "m < 4503599627370496 * q")
    case True
    from Suc [of "q / 2"] obtain k where "k \<le> n" "ulpBelow n m (q / 2) = q / 2 / 2 ^ k"
      by blast
    then have "Suc k \<le> Suc n \<and> ulpBelow (Suc n) m q = q / 2 ^ Suc k"
      using True by simp
    then show ?thesis by blast
  next
    case False
    then have "ulpBelow (Suc n) m q = q / 2 ^ 0" by simp
    then show ?thesis by blast
  qed
qed

lemma roundMagnitude_nonneg: "0 \<le> m \<Longrightarrow> 0 < ulp m \<Longrightarrow> 0 \<le> roundMagnitude m"
proof -
  assume m: "0 \<le> m" and u: "0 < ulp m"
  then have "of_int 0 \<le> m / ulp m" by simp
  then have "0 \<le> roundHalfEven (m / ulp m)" by (rule roundHalfEven_ge)
  then show ?thesis using u by (simp add: roundMagnitude_def)
qed

lemma ulpAbove_pos: "0 < q \<Longrightarrow> 0 < ulpAbove n m q"
  by (induction n arbitrary: q) simp_all

lemma ulp_pos: "0 < ulp m"
proof (cases "m < 4503599627370496")
  case True
  from ulpBelow_pow [of 1074 m 1] obtain k where "ulpBelow 1074 m 1 = 1 / 2 ^ k" by blast
  then show ?thesis using True by (simp add: ulp_def)
next
  case False
  then show ?thesis by (simp add: ulp_def ulpAbove_pos)
qed






lemma ulpBelow_eq:
  assumes "k \<le> n" and "0 < q"
    and "k = n \<or> 4503599627370496 * (q / 2 ^ k) \<le> m"
    and "k = 0 \<or> m < 4503599627370496 * (q / 2 ^ (k - 1))"
  shows "ulpBelow n m q = q / 2 ^ k"
  using assms
proof (induction n arbitrary: q k)
  case 0
  then show ?case by simp
next
  case (Suc n)
  show ?case
  proof (cases k)
    case 0
    with Suc.prems show ?thesis by simp
  next
    case (Suc k')
    have "(1::real) \<le> 2 ^ k'" by simp
    then have "q / 2 ^ k' \<le> q / 1"
      using Suc.prems(2) by (intro divide_left_mono) simp_all
    then have "4503599627370496 * (q / 2 ^ k') \<le> 4503599627370496 * q" by simp
    moreover have "m < 4503599627370496 * (q / 2 ^ k')"
      using Suc.prems(4) Suc by simp
    ultimately have lt: "m < 4503599627370496 * q" by linarith
    have "ulpBelow n m (q / 2) = q / 2 / 2 ^ k'"
    proof (rule Suc.IH)
      show "k' \<le> n" using Suc.prems(1) Suc by simp
      show "0 < q / 2" using Suc.prems(2) by simp
      show "k' = n \<or> 4503599627370496 * (q / 2 / 2 ^ k') \<le> m"
        using Suc.prems(3) Suc by simp
      show "k' = 0 \<or> m < 4503599627370496 * (q / 2 / 2 ^ (k' - 1))"
      proof (cases k')
        case 0
        then show ?thesis by simp
      next
        case (Suc j)
        then show ?thesis
          using \<open>m < 4503599627370496 * (q / 2 ^ k')\<close> by simp
      qed
    qed
    with lt Suc show ?thesis by simp
  qed
qed

lemma roundToDouble_eval:
  assumes "k \<le> 1074" and "m < 4503599627370496"
    and "k = 1074 \<or> 4503599627370496 \<le> m * 2 ^ k"
    and "k = 0 \<or> m * 2 ^ k < 9007199254740992"
    and "roundHalfEven (m * 2 ^ k) = n" and "0 < n" and "n \<le> 9007199254740992"
  shows "roundToDouble s m = Num ((if s then - 1 else 1) * (of_int n / 2 ^ k))"
proof -
  have "ulpBelow 1074 m 1 = 1 / 2 ^ k"
  proof (rule ulpBelow_eq)
    show "k \<le> 1074" by (rule assms(1))
    show "(0::real) < 1" by simp
    show "k = 1074 \<or> 4503599627370496 * (1 / 2 ^ k) \<le> m"
      using assms(3) by (simp add: field_simps)
    show "k = 0 \<or> m < 4503599627370496 * (1 / 2 ^ (k - 1))"
    proof (cases k)
      case 0
      then show ?thesis by simp
    next
      case (Suc j)
      with assms(4) show ?thesis by (simp add: field_simps)
    qed
  qed
  then have u: "ulp m = 1 / 2 ^ k" using assms(2) by (simp add: ulp_def)
  have r: "roundMagnitude m = of_int n / 2 ^ k"
    by (simp add: roundMagnitude_def u assms(5))
  have pos: "0 < (of_int n :: real) / 2 ^ k" using assms(6) by simp
  have "(of_int n :: real) / 2 ^ k \<le> of_int n / 1"
    using assms(6) by (intro divide_left_mono) simp_all
  also have "\<dots> \<le> 9007199254740992" using assms(7) by simp
  also have "\<dots> < 2 ^ 1024" by simp
  finally have lt: "\<not> 2 ^ 1024 \<le> (of_int n :: real) / 2 ^ k" by simp
  show ?thesis
    using pos lt assms(6) by (simp add: roundToDouble_def r Let_def)
qed


section \<open>Properties of the geodesic distance\<close>





















section \<open>Properties of the station resolver\<close>

lemma exactMatchLoop_find:
  "exactMatchLoop a stations = spec_substring_strategy a stations"
  by (induction stations) (simp_all add: spec_substring_strategy_def Let_def)

lemma wordMatchLoop_find:
  "wordMatchLoop (spec_tokens a) stations = spec_fuzzy_strategy split_words a stations"
  by (induction stations) (simp_all add: spec_fuzzy_strategy_def Let_def)

lemma toLowerCase_char_ws: "isWhiteSpace c \<Longrightarrow> toLowerCase_char c = c"
  by (auto simp: isWhiteSpace_def toLowerCase_char_def Let_def)

lemma trim_all_ws:
  assumes "list_all isWhiteSpace a"
  shows "trim (toLowerCase a) = []"
proof -
  from assms have "toLowerCase a = a"
    by (induction a) (simp_all add: toLowerCase_def toLowerCase_char_ws)
  moreover have "dropWhile isWhiteSpace a = []"
    using assms by (simp add: list_all_iff)
  ultimately show ?thesis
    by (simp only: trim_def rev.simps dropWhile.simps)
qed

lemma string_includes_empty: "string_includes s []"
  by (cases s) simp_all

text \<open>
  Claim C3, as stated: the resolver is the chain substring containment, terminal code,
  fuzzy word overlap, where the fuzzy step splits the station name the same way as the
  address (delimited tokens of length above 2). It is not: the code keeps every piece of
  the station name, so the two-letter word "of" of the station name counts as a match
  for the address word "office".
\<close>

theorem findStationByName_fuzzy_tokens_counterexample:
  "findStationByName (Some ''Office Hotel England Road'')
     [mkStation ''1'' ''Bank of England Museum, Bank'' ''001023'' 0 0]
     = Some (mkStation ''1'' ''Bank of England Museum, Bank'' ''001023'' 0 0)
   \<and> spec_resolve spec_tokens (Some ''Office Hotel England Road'')
     [mkStation ''1'' ''Bank of England Museum, Bank'' ''001023'' 0 0] = None"
  by code_simp

text \<open>
  Claim C3, amended: a null or empty address resolves to null; otherwise the address is
  lowercased and trimmed, station names are lowercased, and the first strategy that
  finds a station wins: (1) the first station in directory order whose name contains
  the address or is contained in it, (2) the first station whose terminal name is the
  leftmost run of six digits of the address, (3) the first station for which at least
  two address tokens of length above 2 contain, or are contained in, some piece of the
  station name split at commas and white space, pieces of any length (also empty ones)
  taking part; null when none of the three finds a station.
\<close>

theorem findStationByName_strategy_chain:
  "findStationByName address stations = spec_resolve split_words address stations"
  by (simp add: findStationByName_def spec_resolve_def exactMatchLoop_find terminalMatchStep_def
      spec_terminal_strategy_def wordMatchLoop_find [unfolded spec_tokens_def] spec_tokens_def
      Let_def split: option.splits)

theorem findStationByName_strategy_chain_witness:
  "spec_resolve split_words (Some ''Office Hotel England Road'')
     [mkStation ''1'' ''Bank of England Museum, Bank'' ''001023'' 0 0]
   = Some (mkStation ''1'' ''Bank of England Museum, Bank'' ''001023'' 0 0)"
proof -
  have "findStationByName (Some ''Office Hotel England Road'')
     [mkStation ''1'' ''Bank of England Museum, Bank'' ''001023'' 0 0]
     = Some (mkStation ''1'' ''Bank of England Museum, Bank'' ''001023'' 0 0)"
    by code_simp
  then show ?thesis
    by (simp only: findStationByName_strategy_chain
        [of "Some ''Office Hotel England Road''"
            "[mkStation ''1'' ''Bank of England Museum, Bank'' ''001023'' 0 0]"])
qed

text \<open>
  Claim C10. With a non-empty directory, an address that is not empty and consists of
  white space only resolves to the first station of the directory, in the route and
  station tables and in the statistics cards alike.
\<close>

theorem findStationByName_whitespace_address:
  assumes "a \<noteq> []" and "list_all isWhiteSpace a"
  shows "findStationByName (Some a) (s # ss) = Some s
       \<and> findStationByName_StatsCards (Some a) (s # ss) = Some s"
  using assms
  by (simp add: findStationByName_def findStationByName_StatsCards_def trim_all_ws
      string_includes_empty Let_def)

theorem findStationByName_whitespace_address_witness:
  "findStationByName (Some ''   '')
     [mkStation ''1'' ''Hyde Park Corner, Hyde Park'' ''001191'' 0 0,
      mkStation ''2'' ''Waterloo Station 1, Waterloo'' ''001066'' 0 0]
     = Some (mkStation ''1'' ''Hyde Park Corner, Hyde Park'' ''001191'' 0 0)
   \<and> findStationByName_StatsCards (Some ''   '')
     [mkStation ''1'' ''Hyde Park Corner, Hyde Park'' ''001191'' 0 0,
      mkStation ''2'' ''Waterloo Station 1, Waterloo'' ''001066'' 0 0]
     = Some (mkStation ''1'' ''Hyde Park Corner, Hyde Park'' ''001191'' 0 0)"
proof -
  have "''   '' \<noteq> []" by simp
  moreover have "list_all isWhiteSpace ''   ''"
    by (simp add: isWhiteSpace_def)
  ultimately show ?thesis
    by (rule findStationByName_whitespace_address)
qed

section \<open>Properties of maps in insertion order\<close>

lemma map_get_map_set:
  "map_get (map_set m k v) k' = (if k' = k then Some v else map_get m k')"
  by (induction m) (auto simp: map_get_def)

lemma sum_map_set:
  fixes f :: "'v \<Rightarrow> int"
  shows "sum_list (map f (map_values (map_set m k v)))
         = sum_list (map f (map_values m)) + f v
           - (case map_get m k of None \<Rightarrow> 0 | Some old \<Rightarrow> f old)"
  by (induction m) (auto simp: map_get_def map_values_def)

lemma set_map_set_pairs: "set (map_set m k v) \<subseteq> insert (k, v) (set m)"
  by (induction m) (auto split: if_splits)

lemma set_map_set:
  "set (map_values (map_set m k v)) \<subseteq> insert v (set (map_values m))"
  using set_map_set_pairs [of m k v] by (fastforce simp: map_values_def)

lemma map_fst_map_set:
  "map fst (map_set m k v) = (if k \<in> fst ` set m then map fst m else map fst m @ [k])"
  by (induction m) (auto split: if_splits)

lemma keys_map_set:
  "fst ` set (map_set m k v) = insert k (fst ` set m)"
  using map_fst_map_set [of m k v] 
  by (metis (no_types, lifting) insert_absorb list.set_map set_append list.simps(15) Un_insert_right sup_bot.right_neutral empty_set)

lemma map_get_None_iff: "map_get m k = None \<longleftrightarrow> k \<notin> fst ` set m"
  by (simp add: map_get_def map_of_eq_None_iff)

lemma map_get_Some_values: "map_get m k = Some v \<Longrightarrow> v \<in> set (map_values m)"
  by (auto simp: map_get_def map_values_def dest: map_of_SomeD intro: rev_image_eqI)

section \<open>Rounding of integer quotients\<close>

lemma Math_round_of_int_div:
  assumes "0 < b"
  shows "Math_round (real_of_int a / real_of_int b) = (2 * a + b) div (2 * b)"
proof -
  have "real_of_int a / real_of_int b + 1 / 2 = real_of_int (2 * a + b) / real_of_int (2 * b)"
    using assms by (simp add: field_simps)
  then show ?thesis
    by (simp only: Math_round_def floor_divide_of_int_eq)
qed

lemma Math_round_ms: "Math_round (real_of_int a / 60000) = (a + 30000) div 60000"
proof -
  have "Math_round (real_of_int a / real_of_int 60000) = (2 * a + 60000) div (2 * 60000)"
    by (rule Math_round_of_int_div) simp
  also have "\<dots> = (a + 30000) div 60000" by simp
  finally show ?thesis by simp
qed

lemma Math_floor_div: "Math_floor (real_of_int a / real_of_int s) = a div s"
  by (simp add: Math_floor_def floor_divide_of_int_eq)

section \<open>Properties of the update of an existing route\<close>

lemma updateExisting_None:
  "avgDurationMinutes (updateExisting ex None) = avgDurationMinutes ex"
  "minDurationMinutes (updateExisting ex None) = minDurationMinutes ex"
  "maxDurationMinutes (updateExisting ex None) = maxDurationMinutes ex"
  by (simp_all add: updateExisting_def)

lemma updateExisting_Some_avg:
  "avgDurationMinutes (updateExisting ex (Some d))
     = (case avgDurationMinutes ex of
          None \<Rightarrow> Some d
        | Some oldAvg \<Rightarrow>
            Some (Math_round (real_of_int (oldAvg * ((count ex + 1) - 1) + d)
                              / real_of_int (count ex + 1))))"
  by (simp add: updateExisting_def Let_def split: option.splits)

lemma updateExisting_Some_min:
  "minDurationMinutes (updateExisting ex (Some d))
     = (case minDurationMinutes ex of None \<Rightarrow> Some d | Some mn \<Rightarrow> Some (min mn d))"
  by (simp add: updateExisting_def Let_def min_def split: option.splits)

lemma updateExisting_Some_max:
  "maxDurationMinutes (updateExisting ex (Some d))
     = (case maxDurationMinutes ex of None \<Rightarrow> Some d | Some mx \<Rightarrow> Some (max mx d))"
  by (simp add: updateExisting_def Let_def max_def split: option.splits)

section \<open>The example directory\<close>

lemma resolve_A: "findStationByName (Some ''Station A'') exampleStations = Some stationA"
  by code_simp
lemma resolve_B: "findStationByName (Some ''Station B'') exampleStations = Some stationB"
  by code_simp
lemma resolve_nowhere: "findStationByName (Some ''Nowhere'') exampleStations = None"
  by code_simp
lemma resolve_null: "findStationByName None stations = None"
  by (simp add: findStationByName_def)

section \<open>Properties of the route aggregator\<close>

lemma count_updateExisting: "count (updateExisting ex d) = count ex + 1"
  by (simp add: updateExisting_def Let_def split: option.splits)

lemma routeStep_unresolved:
  "\<not> bothResolve stations ride \<Longrightarrow> routeStep M stations m ride = m"
  by (auto simp: bothResolve_def resolves_def routeStep_def split: option.splits)

lemma routeStep_count:
  "sum_list (map count (map_values (routeStep M stations m ride)))
   = sum_list (map count (map_values m)) + (if bothResolve stations ride then 1 else 0)"
  by (auto simp: bothResolve_def resolves_def routeStep_def Let_def sum_map_set count_updateExisting
      split: option.splits)

lemma foldl_routeStep_count:
  "sum_list (map count (map_values (foldl (routeStep M stations) m rides)))
   = sum_list (map count (map_values m)) + int (length (filter (bothResolve stations) rides))"
  by (induction rides arbitrary: m) (simp_all add: routeStep_count)

lemma foldl_routeStep_filter:
  "foldl (routeStep M stations) m rides
   = foldl (routeStep M stations) m (filter (bothResolve stations) rides)"
  by (induction rides arbitrary: m) (simp_all add: routeStep_unresolved)

text \<open>
  Claim C1. The counts of the route entries add up to the number of rides whose start
  and end address both resolve, and rides with an unresolved end point contribute to no
  entry: the aggregator yields the same table without them.
\<close>

theorem routeStats_count_conservation:
  "sum_list (map count (routeStats M rides stations))
     = int (length (filter (bothResolve stations) rides))
   \<and> routeStats M rides stations = routeStats M (filter (bothResolve stations) rides) stations"
  using foldl_routeStep_count [of M stations "[]" rides] foldl_routeStep_filter [of M stations "[]" rides]
  by (simp add: routeStats_def routesMapOf_def map_values_def)

theorem routeStats_count_conservation_witness:
  "sum_list (map count (routeStats correctlyRoundedMath exampleRides exampleStations)) = 3"
proof -
  have "length (filter (bothResolve exampleStations) exampleRides) = 3"
    by (simp add: exampleRides_def bothResolve_def resolves_def rideAB_def mkRide_def
        resolve_A resolve_B resolve_nowhere)
  then show ?thesis
    using routeStats_count_conservation [of correctlyRoundedMath exampleRides exampleStations, THEN conjunct1] by simp
qed

lemma routeKey_AB: "routeKey stationA stationB = ''1-2''"
  by (simp add: routeKey_def stationA_def stationB_def mkStation_def)

lemma dur0: "rideDurationMinutes (rideAB (Some 0) (Some 0)) = Some 0"
  by (simp add: rideDurationMinutes_def rideAB_def mkRide_def Math_round_def)

lemma dur1: "rideDurationMinutes (rideAB (Some 0) (Some 60000)) = Some 1"
  by (simp add: rideDurationMinutes_def rideAB_def mkRide_def Math_round_ms)

lemma addr_AB: "startAddress (rideAB st et) = Some ''Station A''" "endAddress (rideAB st et) = Some ''Station B''"
  by (simp_all add: rideAB_def mkRide_def)

lemma map_after_two:
  "routesMapOf correctlyRoundedMath [rideAB (Some 0) (Some 0), rideAB (Some 0) (Some 60000)] exampleStations
   = [(''1-2'', \<lparr>startStation = stationA, endStation = stationB, count = 2,
        avgDurationMinutes = Some 1, minDurationMinutes = Some 0, maxDurationMinutes = Some 1,
        distanceKm = calculateDistance correctlyRoundedMath (lat stationA) (long stationA) (lat stationB) (long stationB)\<rparr>)]"
  by (simp add: routesMapOf_def routeStep_def addr_AB resolve_A resolve_B dur0 dur1
      routeKey_AB map_get_def updateExisting_def Math_round_def Let_def)

text \<open>
  Claim C5. When a ride falls on a route that already has an entry, the entry's count
  goes up by one; with a duration \<open>d\<close> the average becomes
  \<open>round((oldAvg * (count - 1) + d) / count)\<close> for the new count (or \<open>d\<close> when no
  duration had been recorded), the minimum and maximum absorb \<open>d\<close>; without a
  duration the three duration fields stay as they were, null included.
\<close>

theorem routeStep_existing_update:
  assumes "findStationByName (startAddress ride) stations = Some s"
      and "findStationByName (endAddress ride) stations = Some e"
      and "map_get m (routeKey s e) = Some ex"
  shows "map_get (routeStep M stations m ride) (routeKey s e)
           = Some (updateExisting ex (rideDurationMinutes ride))
       \<and> count (updateExisting ex (rideDurationMinutes ride)) = count ex + 1
       \<and> (case rideDurationMinutes ride of
             None \<Rightarrow>
               avgDurationMinutes (updateExisting ex None) = avgDurationMinutes ex
               \<and> minDurationMinutes (updateExisting ex None) = minDurationMinutes ex
               \<and> maxDurationMinutes (updateExisting ex None) = maxDurationMinutes ex
           | Some d \<Rightarrow>
               avgDurationMinutes (updateExisting ex (Some d))
                 = (case avgDurationMinutes ex of
                      None \<Rightarrow> Some d
                    | Some oldAvg \<Rightarrow>
                        Some (Math_round (real_of_int (oldAvg * ((count ex + 1) - 1) + d)
                                          / real_of_int (count ex + 1))))
               \<and> minDurationMinutes (updateExisting ex (Some d))
                 = (case minDurationMinutes ex of None \<Rightarrow> Some d | Some mn \<Rightarrow> Some (min mn d))
               \<and> maxDurationMinutes (updateExisting ex (Some d))
                 = (case maxDurationMinutes ex of None \<Rightarrow> Some d | Some mx \<Rightarrow> Some (max mx d)))"
proof (intro conjI)
  show "map_get (routeStep M stations m ride) (routeKey s e)
           = Some (updateExisting ex (rideDurationMinutes ride))"
    using assms by (simp add: routeStep_def Let_def map_get_map_set)
  show "count (updateExisting ex (rideDurationMinutes ride)) = count ex + 1"
    by (rule count_updateExisting)
  show "case rideDurationMinutes ride of
             None \<Rightarrow>
               avgDurationMinutes (updateExisting ex None) = avgDurationMinutes ex
               \<and> minDurationMinutes (updateExisting ex None) = minDurationMinutes ex
               \<and> maxDurationMinutes (updateExisting ex None) = maxDurationMinutes ex
           | Some d \<Rightarrow>
               avgDurationMinutes (updateExisting ex (Some d))
                 = (case avgDurationMinutes ex of
                      None \<Rightarrow> Some d
                    | Some oldAvg \<Rightarrow>
                        Some (Math_round (real_of_int (oldAvg * ((count ex + 1) - 1) + d)
                                          / real_of_int (count ex + 1))))
               \<and> minDurationMinutes (updateExisting ex (Some d))
                 = (case minDurationMinutes ex of None \<Rightarrow> Some d | Some mn \<Rightarrow> Some (min mn d))
               \<and> maxDurationMinutes (updateExisting ex (Some d))
                 = (case maxDurationMinutes ex of None \<Rightarrow> Some d | Some mx \<Rightarrow> Some (max mx d))"
    by (cases "rideDurationMinutes ride")
       (simp_all only: option.case updateExisting_None updateExisting_Some_avg
          updateExisting_Some_min updateExisting_Some_max simp_thms)
qed

text \<open>
  Three rides of 0, 1 and 0 minutes on one route: the average is rounded at each update,
  \<open>round(1/2) = 1\<close> then \<open>round(2/3) = 1\<close>, where the mean of all three rounds to 0.
\<close>

theorem routeStep_existing_update_witness:
  "map_get (routeStep correctlyRoundedMath exampleStations
       (routesMapOf correctlyRoundedMath [rideAB (Some 0) (Some 0), rideAB (Some 0) (Some 60000)] exampleStations)
       (rideAB (Some 0) (Some 0))) ''1-2''
   = Some \<lparr>startStation = stationA, endStation = stationB, count = 3,
        avgDurationMinutes = Some 1, minDurationMinutes = Some 0, maxDurationMinutes = Some 1,
        distanceKm = calculateDistance correctlyRoundedMath (lat stationA) (long stationA) (lat stationB) (long stationB)\<rparr>"
proof -
  let ?m = "routesMapOf correctlyRoundedMath [rideAB (Some 0) (Some 0), rideAB (Some 0) (Some 60000)] exampleStations"
  let ?ex = "\<lparr>startStation = stationA, endStation = stationB, count = 2,
        avgDurationMinutes = Some 1, minDurationMinutes = Some 0, maxDurationMinutes = Some 1,
        distanceKm = calculateDistance correctlyRoundedMath (lat stationA) (long stationA) (lat stationB) (long stationB)\<rparr>"
  have s: "findStationByName (startAddress (rideAB (Some 0) (Some 0))) exampleStations = Some stationA"
    by (simp add: addr_AB resolve_A)
  have e: "findStationByName (endAddress (rideAB (Some 0) (Some 0))) exampleStations = Some stationB"
    by (simp add: addr_AB resolve_B)
  have g: "map_get ?m (routeKey stationA stationB) = Some ?ex"
    by (simp add: map_after_two routeKey_AB map_get_def)
  have "map_get (routeStep correctlyRoundedMath exampleStations ?m (rideAB (Some 0) (Some 0))) (routeKey stationA stationB)
        = Some (updateExisting ?ex (rideDurationMinutes (rideAB (Some 0) (Some 0))))"
    using routeStep_existing_update [OF s e g] by (rule conjunct1)
  then show ?thesis
    by (simp add: routeKey_AB dur0 updateExisting_def Let_def Math_round_def)
qed

section \<open>Properties of the station aggregator\<close>

lemma find_in_set: "find P xs = Some x \<Longrightarrow> x \<in> set xs"
  by (induction xs) (auto split: if_splits)

lemma wordMatchLoop_in_set: "wordMatchLoop ws stations = Some s \<Longrightarrow> s \<in> set stations"
  by (induction stations) (auto simp: Let_def split: if_splits)

lemma exactMatchLoop_in_set: "exactMatchLoop a stations = Some s \<Longrightarrow> s \<in> set stations"
  by (induction stations) (auto simp: Let_def split: if_splits)

lemma findStationByName_in_set:
  "findStationByName address stations = Some s \<Longrightarrow> s \<in> set stations"
  by (auto simp: findStationByName_def terminalMatchStep_def Let_def
      split: option.splits if_splits
      dest: find_in_set wordMatchLoop_in_set exactMatchLoop_in_set)

lemma initStationStats_gen:
  "fst ` set (foldl (\<lambda>statsMap st. map_set statsMap (Station.id st)
              \<lparr>station = st, pickups = 0, dropoffs = 0, total = 0, net = 0\<rparr>) m sts)
     = fst ` set m \<union> Station.id ` set sts
   \<and> set (map_values (foldl (\<lambda>statsMap st. map_set statsMap (Station.id st)
              \<lparr>station = st, pickups = 0, dropoffs = 0, total = 0, net = 0\<rparr>) m sts))
       \<subseteq> set (map_values m)
          \<union> (\<lambda>st. \<lparr>station = st, pickups = 0, dropoffs = 0, total = 0, net = 0\<rparr>) ` set sts"
proof (induction sts arbitrary: m)
  case Nil
  show ?case by simp
next
  case (Cons st sts)
  let ?z = "\<lparr>station = st, pickups = 0, dropoffs = 0, total = 0, net = 0\<rparr>"
  have "set (map_values (map_set m (Station.id st) ?z)) \<subseteq> insert ?z (set (map_values m))"
    by (rule set_map_set)
  with Cons [of "map_set m (Station.id st) ?z"] show ?case
    by (auto simp: keys_map_set)
qed

lemma initStationStats_zero:
  "e \<in> set (map_values (initStationStats stations)) \<Longrightarrow>
     pickups e = 0 \<and> dropoffs e = 0 \<and> StationStats.total e = 0 \<and> net e = 0"
  using initStationStats_gen [of "[]" stations]
  by (auto simp: initStationStats_def map_values_def)

lemma sum_list_all_zero:
  fixes f :: "'a \<Rightarrow> int"
  shows "(\<And>x. x \<in> set xs \<Longrightarrow> f x = 0) \<Longrightarrow> sum_list (map f xs) = 0"
  by (induction xs) simp_all

lemma initStationStats_ok: "statsMapOk stations (initStationStats stations)"
  using initStationStats_gen [of "[]" stations] initStationStats_zero [of _ stations]
  by (auto simp: statsMapOk_def initStationStats_def)

lemma statsMapOk_lookup:
  assumes "statsMapOk stations m" and "findStationByName address stations = Some s"
  shows "\<exists>stats. map_get m (Station.id s) = Some stats
           \<and> StationStats.total stats = pickups stats + dropoffs stats
           \<and> net stats = pickups stats - dropoffs stats"
proof -
  have "s \<in> set stations"
    using assms(2) by (rule findStationByName_in_set)
  then have "Station.id s \<in> fst ` set m"
    using assms(1) by (auto simp: statsMapOk_def)
  then obtain stats where st: "map_get m (Station.id s) = Some stats"
    by (cases "map_get m (Station.id s)") (auto simp: map_get_None_iff)
  then have "stats \<in> set (map_values m)"
    by (rule map_get_Some_values)
  with assms(1) st show ?thesis
    by (auto simp: statsMapOk_def)
qed

lemma statsMapOk_map_set:
  assumes "statsMapOk stations m"
      and "StationStats.total v = pickups v + dropoffs v" and "net v = pickups v - dropoffs v"
  shows "statsMapOk stations (map_set m k v)"
  using assms set_map_set [of m k v]
  by (auto simp: statsMapOk_def keys_map_set)

lemma countPickup_props:
  assumes "statsMapOk stations m"
  shows "statsMapOk stations (countPickup stations m ride)"
    and "sum_list (map pickups (map_values (countPickup stations m ride)))
         = sum_list (map pickups (map_values m))
           + (if resolves stations (startAddress ride) then 1 else 0)"
    and "sum_list (map dropoffs (map_values (countPickup stations m ride)))
         = sum_list (map dropoffs (map_values m))"
proof -
  show "statsMapOk stations (countPickup stations m ride)"
  proof (cases "findStationByName (startAddress ride) stations")
    case None
    then show ?thesis using assms by (simp add: countPickup_def)
  next
    case (Some s)
    from statsMapOk_lookup [OF assms Some] obtain stats where
      "map_get m (Station.id s) = Some stats"
      "StationStats.total stats = pickups stats + dropoffs stats"
      "net stats = pickups stats - dropoffs stats" by blast
    then show ?thesis
      using Some assms by (simp add: countPickup_def statsMapOk_map_set)
  qed
  show "sum_list (map pickups (map_values (countPickup stations m ride)))
         = sum_list (map pickups (map_values m))
           + (if resolves stations (startAddress ride) then 1 else 0)"
  proof (cases "findStationByName (startAddress ride) stations")
    case None
    then show ?thesis by (simp add: countPickup_def resolves_def)
  next
    case (Some s)
    from statsMapOk_lookup [OF assms Some] obtain stats where
      "map_get m (Station.id s) = Some stats" by blast
    then show ?thesis
      using Some by (simp add: countPickup_def resolves_def sum_map_set)
  qed
  show "sum_list (map dropoffs (map_values (countPickup stations m ride)))
         = sum_list (map dropoffs (map_values m))"
    by (simp add: countPickup_def sum_map_set split: option.splits)
qed

lemma countDropoff_props:
  assumes "statsMapOk stations m"
  shows "statsMapOk stations (countDropoff stations m ride)"
    and "sum_list (map dropoffs (map_values (countDropoff stations m ride)))
         = sum_list (map dropoffs (map_values m))
           + (if resolves stations (endAddress ride) then 1 else 0)"
    and "sum_list (map pickups (map_values (countDropoff stations m ride)))
         = sum_list (map pickups (map_values m))"
proof -
  show "statsMapOk stations (countDropoff stations m ride)"
  proof (cases "findStationByName (endAddress ride) stations")
    case None
    then show ?thesis using assms by (simp add: countDropoff_def)
  next
    case (Some s)
    from statsMapOk_lookup [OF assms Some] obtain stats where
      "map_get m (Station.id s) = Some stats"
      "StationStats.total stats = pickups stats + dropoffs stats"
      "net stats = pickups stats - dropoffs stats" by blast
    then show ?thesis
      using Some assms by (simp add: countDropoff_def statsMapOk_map_set)
  qed
  show "sum_list (map dropoffs (map_values (countDropoff stations m ride)))
         = sum_list (map dropoffs (map_values m))
           + (if resolves stations (endAddress ride) then 1 else 0)"
  proof (cases "findStationByName (endAddress ride) stations")
    case None
    then show ?thesis by (simp add: countDropoff_def resolves_def)
  next
    case (Some s)
    from statsMapOk_lookup [OF assms Some] obtain stats where
      "map_get m (Station.id s) = Some stats" by blast
    then show ?thesis
      using Some by (simp add: countDropoff_def resolves_def sum_map_set)
  qed
  show "sum_list (map pickups (map_values (countDropoff stations m ride)))
         = sum_list (map pickups (map_values m))"
    by (simp add: countDropoff_def sum_map_set split: option.splits)
qed

lemma foldl_stationStep:
  assumes "statsMapOk stations m"
  shows "statsMapOk stations (foldl (stationStep stations) m rides)
       \<and> sum_list (map pickups (map_values (foldl (stationStep stations) m rides)))
         = sum_list (map pickups (map_values m))
           + int (length (filter (\<lambda>r. resolves stations (startAddress r)) rides))
       \<and> sum_list (map dropoffs (map_values (foldl (stationStep stations) m rides)))
         = sum_list (map dropoffs (map_values m))
           + int (length (filter (\<lambda>r. resolves stations (endAddress r)) rides))"
  using assms
proof (induction rides arbitrary: m)
  case Nil
  then show ?case by simp
next
  case (Cons r rides)
  have ok1: "statsMapOk stations (countPickup stations m r)"
    using Cons.prems by (rule countPickup_props(1))
  have ok2: "statsMapOk stations (stationStep stations m r)"
    unfolding stationStep_def using ok1 by (rule countDropoff_props(1))
  have p: "sum_list (map pickups (map_values (stationStep stations m r)))
           = sum_list (map pickups (map_values m))
             + (if resolves stations (startAddress r) then 1 else 0)"
    unfolding stationStep_def
    using countDropoff_props(3) [OF ok1] countPickup_props(2) [OF Cons.prems] by simp
  have d: "sum_list (map dropoffs (map_values (stationStep stations m r)))
           = sum_list (map dropoffs (map_values m))
             + (if resolves stations (endAddress r) then 1 else 0)"
    unfolding stationStep_def
    using countDropoff_props(2) [OF ok1] countPickup_props(3) [OF Cons.prems] by simp
  show ?case
    using Cons.IH [OF ok2] p d by simp
qed

text \<open>
  Claim C2. The pick-ups of all entries add up to the number of rides whose start address
  resolves, the drop-offs to the number of rides whose end address resolves, and in every
  entry \<open>total = pickups + dropoffs\<close> and \<open>net = pickups - dropoffs\<close>.
\<close>

theorem stationStats_conservation:
  "sum_list (map pickups (stationStats rides stations))
     = int (length (filter (\<lambda>r. resolves stations (startAddress r)) rides))
   \<and> sum_list (map dropoffs (stationStats rides stations))
     = int (length (filter (\<lambda>r. resolves stations (endAddress r)) rides))
   \<and> (\<forall>e \<in> set (stationStats rides stations).
         StationStats.total e = pickups e + dropoffs e \<and> net e = pickups e - dropoffs e)"
proof -
  have z: "sum_list (map pickups (map_values (initStationStats stations))) = 0"
          "sum_list (map dropoffs (map_values (initStationStats stations))) = 0"
    using initStationStats_zero [of _ stations] by (simp_all add: sum_list_all_zero)
  show ?thesis
    using foldl_stationStep [OF initStationStats_ok, of stations rides] z
    by (simp add: stationStats_def statsMapOk_def)
qed

theorem stationStats_conservation_witness:
  "sum_list (map pickups (stationStats exampleRides exampleStations)) = 3
   \<and> sum_list (map dropoffs (stationStats exampleRides exampleStations)) = 4
   \<and> list_all (\<lambda>e. StationStats.total e = pickups e + dropoffs e
                      \<and> net e = pickups e - dropoffs e)
         (stationStats exampleRides exampleStations)"
proof -
  have "length (filter (\<lambda>r. resolves exampleStations (startAddress r)) exampleRides) = 3"
    by (simp add: exampleRides_def resolves_def rideAB_def mkRide_def
        resolve_A resolve_B resolve_nowhere)
  moreover have "length (filter (\<lambda>r. resolves exampleStations (endAddress r)) exampleRides) = 4"
    by (simp add: exampleRides_def resolves_def rideAB_def mkRide_def
        resolve_A resolve_B resolve_nowhere)
  ultimately show ?thesis
    using stationStats_conservation [of exampleRides exampleStations]
    by (simp add: list_all_iff)
qed

section \<open>Properties of the price statistics\<close>

lemma roundToDouble_not_NaN: "roundToDouble s m \<noteq> NaN"
  by (simp add: roundToDouble_def Let_def)

lemma js_less_zero_roundToDouble:
  "0 \<le> m \<Longrightarrow> js_less (Num 0) (roundToDouble False m) \<longleftrightarrow> roundToDouble False m \<noteq> Num 0"
  using roundMagnitude_nonneg [OF _ ulp_pos, of m]
  by (auto simp: roundToDouble_def Let_def js_less_def)

lemma parseFloat_cases:
  "parseFloat g = NaN \<or> (\<exists>m. 0 \<le> m \<and> parseFloat g = roundToDouble False m)"
proof -
  let ?i = "takeWhile isDigit g"
  let ?f = "case dropWhile isDigit g of [] \<Rightarrow> []
            | c # cs \<Rightarrow> if c = CHR ''.'' then takeWhile isDigit cs else []"
  let ?m = "real (digitsValue ?i) + real (digitsValue ?f) / 10 ^ length ?f"
  have "0 \<le> ?m" by simp
  moreover have "parseFloat g = (if ?i = [] \<and> ?f = [] then NaN else roundToDouble False ?m)"
    by (simp add: parseFloat_def Let_def)
  ultimately show ?thesis by metis
qed

lemma parseFloat_positive:
  "js_less (Num 0) (parseFloat g) \<longleftrightarrow> parseFloat g \<noteq> NaN \<and> parseFloat g \<noteq> Num 0"
  using parseFloat_cases [of g]
proof
  assume "parseFloat g = NaN"
  then show ?thesis by (simp add: js_less_def)
next
  assume "\<exists>m. 0 \<le> m \<and> parseFloat g = roundToDouble False m"
  then obtain m where m: "0 \<le> m" "parseFloat g = roundToDouble False m" by blast
  show ?thesis
    unfolding m(2) using js_less_zero_roundToDouble [OF m(1)] roundToDouble_not_NaN by simp
qed

lemma priceMatch_Nil: "priceMatch [] = None"
  by simp

lemma hasPaidPrice_value: "hasPaidPrice r = Inr (\<not> excludedFromSpend r)"
proof (cases "price r")
  case None
  then show ?thesis by (simp add: hasPaidPrice_def falsy_def excludedFromSpend_def)
next
  case (Some p)
  show ?thesis
  proof (cases "priceMatch p")
    case None
    with Some show ?thesis
      by (simp add: hasPaidPrice_def falsy_def excludedFromSpend_def parsedPrice_def
          js_bind_def nonNull_def)
  next
    case g: (Some g)
    then have ne: "p \<noteq> []" by auto
    with Some g show ?thesis
      by (simp add: hasPaidPrice_def falsy_def excludedFromSpend_def parsedPrice_def
          js_bind_def nonNull_def parseFloat_positive)
  qed
qed

lemma Array_filter_total:
  "(\<And>x. f x = Inr (P x)) \<Longrightarrow> Array_filter f xs = Inr (filter P xs)"
  by (induction xs) simp_all

lemma ridesWithPrice_value:
  "ridesWithPrice rides = Inr (filter (\<lambda>r. \<not> excludedFromSpend r) rides)"
  unfolding ridesWithPrice_def by (rule Array_filter_total) (rule hasPaidPrice_value)

lemma spendStep_paid:
  assumes "\<not> excludedFromSpend r"
  shows "spendStep acc r = Inr (js_add acc (priceValue r))"
proof -
  from assms obtain p g where "price r = Some p" "priceMatch p = Some g"
    by (auto simp: excludedFromSpend_def parsedPrice_def split: option.splits)
  moreover from this have "p \<noteq> []" by auto
  ultimately show ?thesis
    by (simp add: spendStep_def falsy_def js_bind_def nonNull_def priceValue_def parsedPrice_def)
qed

lemma Array_reduce_spend:
  "list_all (\<lambda>r. \<not> excludedFromSpend r) rs \<Longrightarrow>
     Array_reduce spendStep acc rs = Inr (foldl js_add acc (map priceValue rs))"
  by (induction rs arbitrary: acc) (simp_all add: spendStep_paid)

lemma totalSpentAmount_value:
  "totalSpentAmount rides = Inr (sumLeftToRight (paidPrices rides))"
proof -
  have "list_all (\<lambda>r. \<not> excludedFromSpend r) (filter (\<lambda>r. \<not> excludedFromSpend r) rides)"
    by (simp add: list_all_iff)
  then show ?thesis
    by (simp add: totalSpentAmount_def ridesWithPrice_value js_bind_def Array_reduce_spend
        sumLeftToRight_def paidPrices_def)
qed

lemma totalSpentRides_value:
  "totalSpentRides rides = Inr (length (filter (\<lambda>r. \<not> excludedFromSpend r) rides))"
  by (simp add: totalSpentRides_def ridesWithPrice_value js_bind_def)

lemma price_pricedRide: "price (pricedRide p) = p"
  by (simp add: pricedRide_def mkRide_def)

lemma parseFloat_150: "parseFloat ''1.50'' = Num (3 / 2)"
proof -
  have "parseFloat ''1.50'' = roundToDouble False (3 / 2)"
    by (simp add: parseFloat_def isDigit_def digitsValue_def)
  also have "\<dots> = Num (3 / 2)"
    using roundToDouble_eval [of 52 "3 / 2" 6755399441055744 False]
    by (simp add: roundHalfEven_def)
  finally show ?thesis .
qed

lemma parseFloat_000: "parseFloat ''0.00'' = Num 0"
  by (simp add: parseFloat_def isDigit_def digitsValue_def roundToDouble_0 zero_def)

lemma parseFloat_010: "parseFloat ''0.10'' = Num (3602879701896397 / 36028797018963968)"
proof -
  have "parseFloat ''0.10'' = roundToDouble False (1 / 10)"
    by (simp add: parseFloat_def isDigit_def digitsValue_def)
  also have "\<dots> = Num (3602879701896397 / 36028797018963968)"
    using roundToDouble_eval [of 56 "1 / 10" 7205759403792794 False]
    by (simp add: roundHalfEven_def)
  finally show ?thesis .
qed

lemma parseFloat_020: "parseFloat ''0.20.3'' = Num (3602879701896397 / 18014398509481984)"
proof -
  have "parseFloat ''0.20.3'' = roundToDouble False (1 / 5)"
    by (simp add: parseFloat_def isDigit_def digitsValue_def)
  also have "\<dots> = Num (3602879701896397 / 18014398509481984)"
    using roundToDouble_eval [of 55 "1 / 5" 7205759403792794 False]
    by (simp add: roundHalfEven_def)
  finally show ?thesis .
qed

lemma priceMatch_examples:
  "priceMatch (poundSign # ''1.50'') = Some ''1.50''"
  "priceMatch (poundSign # ''0.00'') = Some ''0.00''"
  "priceMatch (poundSign # ''0.10'') = Some ''0.10''"
  "priceMatch ''free'' = None"
  "priceMatch ''0.20.3 GBP'' = Some ''0.20.3''"
  by code_simp+

lemma parsedPrice_150:
  "parsedPrice (r\<lparr>price := Some (poundSign # ''1.50'')\<rparr>) = Some (Num (3 / 2))"
  by (simp add: parsedPrice_def priceMatch_examples parseFloat_150 del: priceMatch.simps)

lemma parsedPrice_000:
  "parsedPrice (r\<lparr>price := Some (poundSign # ''0.00'')\<rparr>) = Some (Num 0)"
  by (simp add: parsedPrice_def priceMatch_examples parseFloat_000 del: priceMatch.simps)

lemma parsedPrice_examples:
  "parsedPrice (pricedRide (Some (poundSign # ''0.10'')))
     = Some (Num (3602879701896397 / 36028797018963968))"
  "parsedPrice (pricedRide (Some (poundSign # ''0.00''))) = Some (Num 0)"
  "parsedPrice (pricedRide (Some ''free'')) = None"
  "parsedPrice (pricedRide None) = None"
  "parsedPrice (pricedRide (Some ''0.20.3 GBP''))
     = Some (Num (3602879701896397 / 18014398509481984))"
  by (simp_all add: parsedPrice_def price_pricedRide priceMatch_examples parseFloat_010
      parseFloat_000 parseFloat_020 del: priceMatch.simps)

lemma sum_010_020:
  "sumLeftToRight
     [Num (3602879701896397 / 36028797018963968), Num (3602879701896397 / 18014398509481984)]
   = Num (1351079888211149 / 4503599627370496)"
proof -
  have a: "roundToDouble False (3602879701896397 / 36028797018963968)
           = Num (3602879701896397 / 36028797018963968)"
    using roundToDouble_eval [of 56 "3602879701896397 / 36028797018963968" 7205759403792794 False]
    by (simp add: roundHalfEven_def)
  have b: "roundToDouble False (10808639105689191 / 36028797018963968)
           = Num (1351079888211149 / 4503599627370496)"
    using roundToDouble_eval [of 54 "10808639105689191 / 36028797018963968" 5404319552844596 False]
    by (simp add: roundHalfEven_def)
  show ?thesis
    by (simp add: sumLeftToRight_def js_add_def a b)
qed

lemma included_150: "\<not> excludedFromSpend (r\<lparr>price := Some (poundSign # ''1.50'')\<rparr>)"
  by (simp add: excludedFromSpend_def parsedPrice_150)

lemma excluded_000: "excludedFromSpend (r\<lparr>price := Some (poundSign # ''0.00'')\<rparr>)"
  by (simp add: excludedFromSpend_def parsedPrice_000)

text \<open>
  Claim C7. For every ride list, whatever the price strings are, the three results are
  returned and nothing is thrown. The paid rides are the rides whose price is not null,
  matches the pattern and parses to a number other than zero; \<open>totalSpentRides\<close> is
  how many they are and \<open>totalSpentAmount\<close> is the sum of their parsed prices, added
  as doubles in the order of the rides. A price of 1.50 pounds parses to 1.5, its ride
  is a paid ride, and at the end of a ride list it adds 1.5 to the total and 1 to the
  count; a price of 0.00 pounds makes an excluded ride, which changes neither.
\<close>

theorem price_stats_exclusion:
  "ridesWithPrice rides = Inr (filter (\<lambda>r. \<not> excludedFromSpend r) rides)
   \<and> totalSpentRides rides = Inr (length (filter (\<lambda>r. \<not> excludedFromSpend r) rides))
   \<and> totalSpentAmount rides = Inr (sumLeftToRight (paidPrices rides))
   \<and> hasPaidPrice r = Inr (\<not> excludedFromSpend r)
   \<and> parsedPrice (r\<lparr>price := Some (poundSign # ''1.50'')\<rparr>) = Some (Num (3 / 2))
   \<and> \<not> excludedFromSpend (r\<lparr>price := Some (poundSign # ''1.50'')\<rparr>)
   \<and> totalSpentAmount (rides @ [r\<lparr>price := Some (poundSign # ''1.50'')\<rparr>])
       = Inr (js_add (sumLeftToRight (paidPrices rides)) (Num (3 / 2)))
   \<and> totalSpentRides (rides @ [r\<lparr>price := Some (poundSign # ''1.50'')\<rparr>])
       = Inr (length (filter (\<lambda>r. \<not> excludedFromSpend r) rides) + 1)
   \<and> excludedFromSpend (r\<lparr>price := Some (poundSign # ''0.00'')\<rparr>)
   \<and> totalSpentAmount (rides @ [r\<lparr>price := Some (poundSign # ''0.00'')\<rparr>])
       = totalSpentAmount rides
   \<and> totalSpentRides (rides @ [r\<lparr>price := Some (poundSign # ''0.00'')\<rparr>])
       = totalSpentRides rides"
proof (intro conjI)
  show "ridesWithPrice rides = Inr (filter (\<lambda>r. \<not> excludedFromSpend r) rides)"
    by (rule ridesWithPrice_value)
  show "totalSpentRides rides = Inr (length (filter (\<lambda>r. \<not> excludedFromSpend r) rides))"
    by (rule totalSpentRides_value)
  show "totalSpentAmount rides = Inr (sumLeftToRight (paidPrices rides))"
    by (rule totalSpentAmount_value)
  show "hasPaidPrice r = Inr (\<not> excludedFromSpend r)"
    by (rule hasPaidPrice_value)
  show "parsedPrice (r\<lparr>price := Some (poundSign # ''1.50'')\<rparr>) = Some (Num (3 / 2))"
    by (rule parsedPrice_150)
  show "\<not> excludedFromSpend (r\<lparr>price := Some (poundSign # ''1.50'')\<rparr>)"
    by (rule included_150)
  show "totalSpentAmount (rides @ [r\<lparr>price := Some (poundSign # ''1.50'')\<rparr>])
       = Inr (js_add (sumLeftToRight (paidPrices rides)) (Num (3 / 2)))"
    by (simp add: totalSpentAmount_value paidPrices_def sumLeftToRight_def included_150
        priceValue_def parsedPrice_150)
  show "totalSpentRides (rides @ [r\<lparr>price := Some (poundSign # ''1.50'')\<rparr>])
       = Inr (length (filter (\<lambda>r. \<not> excludedFromSpend r) rides) + 1)"
    by (simp add: totalSpentRides_value included_150)
  show "excludedFromSpend (r\<lparr>price := Some (poundSign # ''0.00'')\<rparr>)"
    by (rule excluded_000)
  show "totalSpentAmount (rides @ [r\<lparr>price := Some (poundSign # ''0.00'')\<rparr>])
       = totalSpentAmount rides"
    by (simp add: totalSpentAmount_value paidPrices_def excluded_000)
  show "totalSpentRides (rides @ [r\<lparr>price := Some (poundSign # ''0.00'')\<rparr>])
       = totalSpentRides rides"
    by (simp add: totalSpentRides_value excluded_000)
qed

text \<open>
  Prices of 0.10 and 0.20 pounds among excluded rides: two paid rides, and the total is
  the double \<open>0.30000000000000004\<close> that the addition of \<open>0.1\<close> and \<open>0.2\<close> rounds to.
\<close>

theorem price_stats_exclusion_witness:
  "totalSpentRides examplePricedRides = Inr 2
   \<and> totalSpentAmount examplePricedRides = Inr (Num (1351079888211149 / 4503599627370496))
   \<and> paidPrices examplePricedRides
       = [Num (3602879701896397 / 36028797018963968), Num (3602879701896397 / 18014398509481984)]"
proof -
  have e: "map excludedFromSpend examplePricedRides = [False, True, True, True, False]"
    by (simp add: examplePricedRides_def excludedFromSpend_def parsedPrice_examples
        price_pricedRide)
  have f: "filter (\<lambda>r. \<not> excludedFromSpend r) examplePricedRides
           = [pricedRide (Some (poundSign # ''0.10'')), pricedRide (Some ''0.20.3 GBP'')]"
    using e by (simp add: examplePricedRides_def)
  have p: "paidPrices examplePricedRides
       = [Num (3602879701896397 / 36028797018963968), Num (3602879701896397 / 18014398509481984)]"
    by (simp add: paidPrices_def f priceValue_def parsedPrice_examples)
  show ?thesis
    using price_stats_exclusion [of examplePricedRides "pricedRide None"]
    by (simp add: p f sum_010_020)
qed

section \<open>Properties of the streak statistics\<close>

lemma ridesByDateLoop_same_day:
  assumes "list_all (onDay d) rides" and "map fst m = [d]"
  shows "\<exists>m'. ridesByDateLoop m rides = Inr m' \<and> map fst m' = [d]"
  using assms
proof (induction rides arbitrary: m)
  case Nil
  then show ?case by simp
next
  case (Cons r rides)
  show ?case
  proof (cases "startTimeMs r")
    case None
    with Cons show ?thesis by simp
  next
    case (Some t)
    with Cons.prems have k: "dateKey t = Inr d"
      by (simp add: onDay_def dateKey_def)
    have "set (map fst m) = set [d]"
      using Cons.prems(2) by simp
    then have "d \<in> fst ` set m" by simp
    then have "map fst (map_set m d v) = [d]" for v
      by (simp add: map_fst_map_set Cons.prems(2))
    with Cons Some k show ?thesis by simp
  qed
qed

lemma ridesByDateLoop_single_date:
  assumes "list_all (onDay d) rides" and "list_ex (\<lambda>r. startTimeMs r \<noteq> None) rides"
  shows "\<exists>m'. ridesByDateLoop [] rides = Inr m' \<and> map fst m' = [d]"
  using assms
proof (induction rides)
  case Nil
  then show ?case by simp
next
  case (Cons r rides)
  show ?case
  proof (cases "startTimeMs r")
    case None
    with Cons show ?thesis by simp
  next
    case (Some t)
    with Cons.prems have k: "dateKey t = Inr d"
      by (simp add: onDay_def dateKey_def)
    have "list_all (onDay d) rides" using Cons.prems by simp
    from ridesByDateLoop_same_day [OF this, of "[(d, 1)]"]
    show ?thesis using Some k by (simp add: map_get_def)
  qed
qed

lemma streakStats_single: "map fst m = [d] \<Longrightarrow> streakStats (rideDates m) = (0, None)"
  by (cases m) (auto simp: streakStats_def rideDates_def)

lemma rideDayList_Cons:
  "rideDayList (r # rides)
   = (case startTimeMs r of None \<Rightarrow> rideDayList rides
      | Some t \<Rightarrow> (t div 86400000) # rideDayList rides)"
  by (simp add: rideDayList_def List.map_filter_simps split: option.splits)

lemma ridesByDateLoop_keys:
  assumes "timestampsValid rides" and "distinct (map fst m0)"
  shows "\<exists>m. ridesByDateLoop m0 rides = Inr m \<and> distinct (map fst m)
             \<and> set (map fst m) = set (map fst m0) \<union> set (rideDayList rides)"
  using assms
proof (induction rides arbitrary: m0)
  case Nil
  then show ?case by (simp add: rideDayList_def List.map_filter_simps)
next
  case (Cons r rides)
  then have v: "timestampsValid rides" by (simp add: timestampsValid_def)
  show ?case
  proof (cases "startTimeMs r")
    case None
    with Cons.IH [OF v Cons.prems(2)] show ?thesis by (simp add: rideDayList_Cons)
  next
    case (Some t)
    let ?k = "t div 86400000"
    from Some Cons.prems(1) have k: "dateKey t = Inr ?k"
      by (simp add: timestampsValid_def dateKey_def)
    have d: "distinct (map fst (map_set m0 ?k c))" for c
      using Cons.prems(2) by (simp add: map_fst_map_set)
    have s: "set (map fst (map_set m0 ?k c)) = insert ?k (set (map fst m0))" for c
      by (auto simp: map_fst_map_set)
    from Cons.IH [OF v d] s Some k show ?thesis
      by (simp add: rideDayList_Cons)
  qed
qed

lemma daysDiff_dateOfKey:
  "Math_floor (real_of_int (dateOfKey c - dateOfKey p) / (1000 * 60 * 60 * 24)) = c - p"
proof -
  have "real_of_int (dateOfKey c - dateOfKey p) / (1000 * 60 * 60 * 24)
        = real_of_int ((c - p) * 86400000) / real_of_int 86400000"
    by (simp add: dateOfKey_def algebra_simps)
  then show ?thesis
    by (simp only: Math_floor_div) simp
qed

lemma isStreak_last: "isStreak D d n \<Longrightarrow> 0 < n \<Longrightarrow> d + int n - 1 \<in> D"
proof -
  assume s: "isStreak D d n" and n: "0 < n"
  then have "n - 1 < n \<longrightarrow> d + int (n - 1) \<in> D"
    unfolding isStreak_def by blast
  with n have "d + int (n - 1) \<in> D" by simp
  moreover have "d + int (n - 1) = d + int n - 1" using n by (simp add: of_nat_diff)
  ultimately show ?thesis by (simp only:)
qed

lemma isStreak_mem:
  assumes "isStreak D d n" and "d \<le> x" and "x < d + int n"
  shows "x \<in> D"
proof -
  have "nat (x - d) < n" using assms(2,3) by simp
  moreover from assms(1) have "nat (x - d) < n \<longrightarrow> d + int (nat (x - d)) \<in> D"
    unfolding isStreak_def by blast
  ultimately have "d + int (nat (x - d)) \<in> D" by blast
  moreover have "d + int (nat (x - d)) = x" using assms(2) by simp
  ultimately show ?thesis by (simp only:)
qed

lemma isStreak_extend:
  assumes "isStreak D d n" and "d + int n \<in> D"
  shows "isStreak D d (Suc n)"
  unfolding isStreak_def
proof (intro allI impI)
  fix i assume "i < Suc n"
  then consider "i < n" | "i = n" by linarith
  then show "d + int i \<in> D"
  proof cases
    case 1
    with assms(1) show ?thesis by (simp add: isStreak_def)
  next
    case 2
    with assms(2) show ?thesis by simp
  qed
qed

lemma streakLoop_longest:
  assumes "sorted_wrt (<) (p # ks)"
      and "\<forall>x\<in>D. x \<le> p \<or> x \<in> set ks"
      and "set (p # ks) \<subseteq> D"
      and "isStreak D (p - int cs + 1) cs" and "p - int cs \<notin> D"
      and "1 \<le> cs" and "cs \<le> ls"
      and "\<exists>d. isStreak D d ls"
      and "\<forall>d n. isStreak D d n \<longrightarrow> d + int n - 1 \<le> p \<longrightarrow> n \<le> ls"
  shows "\<exists>L. fst (streakLoop (dateOfKey p) (map dateOfKey ks) (int cs) (int ls) lb) = int L
           \<and> (\<exists>d. isStreak D d L) \<and> (\<forall>d n. isStreak D d n \<longrightarrow> n \<le> L)"
  using assms
proof (induction ks arbitrary: p cs ls lb)
  case Nil
  have "n \<le> ls" if s: "isStreak D d n" for d n
  proof (cases "n = 0")
    case True
    then show ?thesis by simp
  next
    case False
    then have "d + int n - 1 \<in> D" using isStreak_last [OF s] by simp
    then have "d + int n - 1 \<le> p" using Nil.prems(2) by auto
    with Nil.prems(9) s show ?thesis by blast
  qed
  with Nil.prems(8) show ?case by auto
next
  case (Cons c ks)
  have pc: "p < c" using Cons.prems(1) by simp
  have cD: "c \<in> D" using Cons.prems(3) by simp
  have gap: "x \<notin> D" if "p < x" "x < c" for x
  proof
    assume "x \<in> D"
    with Cons.prems(2) that(1) have "x \<in> set (c # ks)" by auto
    then have "c \<le> x" using Cons.prems(1) by auto
    with that(2) show False by simp
  qed
  have sorted': "sorted_wrt (<) (c # ks)" using Cons.prems(1) by simp
  have cover': "\<forall>x\<in>D. x \<le> c \<or> x \<in> set ks"
  proof
    fix x assume "x \<in> D"
    with Cons.prems(2) have "x \<le> p \<or> x = c \<or> x \<in> set ks" by auto
    with pc show "x \<le> c \<or> x \<in> set ks" by auto
  qed
  have sub': "set (c # ks) \<subseteq> D" using Cons.prems(3) by simp
  show ?case
  proof (cases "c = p + 1")
    case True
    have st: "isStreak D (c - int (Suc cs) + 1) (Suc cs)"
    proof -
      have "p - int cs + 1 + int cs \<in> D" using cD True by simp
      from isStreak_extend [OF Cons.prems(4) this]
      have "isStreak D (p - int cs + 1) (Suc cs)" .
      moreover have "c - int (Suc cs) + 1 = p - int cs + 1" using True by simp
      ultimately show ?thesis by (simp only:)
    qed
    have nb: "c - int (Suc cs) \<notin> D" using Cons.prems(5) True by simp
    have ex: "\<exists>d. isStreak D d (max ls (Suc cs))"
      using Cons.prems(8) st by (cases "ls \<le> Suc cs") (auto simp: max_def)
    have bound: "\<forall>d n. isStreak D d n \<longrightarrow> d + int n - 1 \<le> c \<longrightarrow> n \<le> max ls (Suc cs)"
    proof (intro allI impI)
      fix d n assume s: "isStreak D d n" and e: "d + int n - 1 \<le> c"
      show "n \<le> max ls (Suc cs)"
      proof (cases "d + int n - 1 \<le> p")
        case True
        with Cons.prems(9) s have "n \<le> ls" by blast
        then show ?thesis by simp
      next
        case False
        with e \<open>c = p + 1\<close> have last: "d + int n - 1 = c" by simp
        have "n \<le> Suc cs"
        proof (rule ccontr)
          assume "\<not> n \<le> Suc cs"
          then have "d \<le> p - int cs" "p - int cs < d + int n"
            using last \<open>c = p + 1\<close> by simp_all
          from isStreak_mem [OF s this] Cons.prems(5) show False by simp
        qed
        then show ?thesis by simp
      qed
    qed
    have step: "streakLoop (dateOfKey p) (map dateOfKey (c # ks)) (int cs) (int ls) lb
          = streakLoop (dateOfKey c) (map dateOfKey ks) (int (Suc cs)) (int (max ls (Suc cs))) lb"
      unfolding list.map streakLoop.simps Let_def daysDiff_dateOfKey
      using True by (simp add: of_nat_max ac_simps)
    from Cons.IH [OF sorted' cover' sub' st nb _ _ ex bound, of lb]
    show ?thesis unfolding step by simp
  next
    case False
    with pc have far: "p + 1 < c" by simp
    have st: "isStreak D (c - int 1 + 1) 1" using cD by (simp add: isStreak_def)
    have nb: "c - int 1 \<notin> D" using gap [of "c - 1"] far by simp
    have one: "(1::nat) \<le> ls" using Cons.prems(6,7) by simp
    have bound: "\<forall>d n. isStreak D d n \<longrightarrow> d + int n - 1 \<le> c \<longrightarrow> n \<le> ls"
    proof (intro allI impI)
      fix d n assume s: "isStreak D d n" and e: "d + int n - 1 \<le> c"
      show "n \<le> ls"
      proof (cases "d + int n - 1 \<le> p")
        case True
        with Cons.prems(9) s show ?thesis by blast
      next
        case notp: False
        show ?thesis
        proof (cases "n \<le> 1")
          case True
          with one show ?thesis by simp
        next
          case False
          then have n2: "2 \<le> n" by simp
          have "d + int n - 1 \<in> D" using isStreak_last [OF s] n2 by simp
          with gap [of "d + int n - 1"] notp e have last: "d + int n - 1 = c"
            by (cases "d + int n - 1 < c") auto
          have "d \<le> c - 1" "c - 1 < d + int n" using last n2 by simp_all
          from isStreak_mem [OF s this] nb show ?thesis by simp
        qed
      qed
    qed
    have ne: "(c - p = 1) = False" using False by simp
    have "\<exists>lb'. streakLoop (dateOfKey p) (map dateOfKey (c # ks)) (int cs) (int ls) lb
          = streakLoop (dateOfKey c) (map dateOfKey ks) (int 1) (int ls) lb'"
      unfolding list.map streakLoop.simps Let_def daysDiff_dateOfKey
      by (simp only: ne if_False of_nat_1) (rule exI, rule refl)
    then obtain lb' where step:
      "streakLoop (dateOfKey p) (map dateOfKey (c # ks)) (int cs) (int ls) lb
          = streakLoop (dateOfKey c) (map dateOfKey ks) (int 1) (int ls) lb'" by blast
    from Cons.IH [OF sorted' cover' sub' st nb _ one Cons.prems(8) bound, of lb']
    show ?thesis unfolding step by simp
  qed
qed

lemma dateOfKey_less: "dateOfKey a < dateOfKey b \<longleftrightarrow> a < b"
  by (simp add: dateOfKey_def)

lemma dateOfKey_le: "dateOfKey a \<le> dateOfKey b \<longleftrightarrow> a \<le> b"
  by (simp add: dateOfKey_def)

lemma dateOfKey_inj: "inj dateOfKey"
  by (rule injI) (simp add: dateOfKey_def)

lemma rideDates_sorted_keys:
  assumes "distinct (map fst m)"
  shows "rideDates m = map dateOfKey (sort (map fst m))"
proof (rule sorted_distinct_set_unique)
  have eq: "map (\<lambda>(k, c). dateOfKey k) m = map dateOfKey (map fst m)"
    by (induction m) auto
  show "sorted (rideDates m)" by (simp add: rideDates_def)
  show "distinct (rideDates m)"
    using assms dateOfKey_inj
    by (simp add: rideDates_def eq distinct_map inj_on_def inj_def)
  show "sorted (map dateOfKey (sort (map fst m)))"
    using sorted_sort [of "map fst m"]
    by (simp add: sorted_map dateOfKey_le del: sorted_sort)
  show "distinct (map dateOfKey (sort (map fst m)))"
    using assms dateOfKey_inj by (simp add: distinct_map inj_on_def inj_def)
  show "set (rideDates m) = set (map dateOfKey (sort (map fst m)))"
    by (simp add: rideDates_def eq image_image)
qed

lemma longestStreak_max_run:
  assumes "timestampsValid rides" and "2 \<le> card (set (rideDayList rides))"
  shows "\<exists>L. longestStreak rides = Inr (int L)
           \<and> (\<exists>d. isStreak (set (rideDayList rides)) d L)
           \<and> (\<forall>d n. isStreak (set (rideDayList rides)) d n \<longrightarrow> n \<le> L)"
proof -
  let ?D = "set (rideDayList rides)"
  from ridesByDateLoop_keys [OF assms(1), of "[]"] obtain m where
    m: "ridesByDateLoop [] rides = Inr m" and dm: "distinct (map fst m)"
    and sm: "set (map fst m) = ?D" by auto
  let ?ks = "sort (map fst m)"
  have sk: "sorted ?ks" and dk: "distinct ?ks" and setk: "set ?ks = ?D"
    using dm sm by simp_all
  have "length ?ks = card ?D"
    using distinct_card [OF dk] setk by simp
  with assms(2) have "2 \<le> length ?ks" by simp
  then obtain k0 k1 ks where ks: "?ks = k0 # k1 # ks"
    by (cases ?ks; cases "tl ?ks") auto
  have strict: "sorted_wrt (<) (k0 # k1 # ks)"
    using sk dk unfolding ks strict_sorted_iff by blast
  have min0: "k0 \<le> x" if "x \<in> ?D" for x
    using that sk setk unfolding ks by auto
  have k0D: "k0 \<in> ?D" using setk unfolding ks by auto
  have cover: "\<forall>x\<in>?D. x \<le> k0 \<or> x \<in> set (k1 # ks)"
    using setk unfolding ks by auto
  have sub: "set (k0 # k1 # ks) \<subseteq> ?D"
    using setk unfolding ks by auto
  have st: "isStreak ?D (k0 - int 1 + 1) 1" using k0D by (simp add: isStreak_def)
  have nb: "k0 - int 1 \<notin> ?D" using min0 [of "k0 - 1"] by auto
  have ex: "\<exists>d. isStreak ?D d 1" using st by blast
  have bound: "\<forall>d n. isStreak ?D d n \<longrightarrow> d + int n - 1 \<le> k0 \<longrightarrow> n \<le> 1"
  proof (intro allI impI)
    fix d n assume s: "isStreak ?D d n" and e: "d + int n - 1 \<le> k0"
    show "n \<le> 1"
    proof (rule ccontr)
      assume "\<not> n \<le> 1"
      then have n2: "2 \<le> n" by simp
      then have "d \<le> d" "d < d + int n" by simp_all
      from isStreak_mem [OF s this] have "d \<in> ?D" .
      from min0 [OF this] e n2 show False by simp
    qed
  qed
  from streakLoop_longest [OF strict cover sub st nb _ _ ex bound, of None]
  obtain L where L: "fst (streakLoop (dateOfKey k0) (map dateOfKey (k1 # ks)) (int 1) (int 1) None) = int L"
    "\<exists>d. isStreak ?D d L" "\<forall>d n. isStreak ?D d n \<longrightarrow> n \<le> L" by auto
  have "rideDates m = dateOfKey k0 # dateOfKey k1 # map dateOfKey ks"
    using rideDates_sorted_keys [OF dm] ks by simp
  then have "longestStreak rides = Inr (int L)"
    using m L(1) by (simp add: longestStreak_def streakStats_def)
  with L(2,3) show ?thesis by blast
qed

lemma longestStreak_single_date_zero:
  assumes "list_all (onDay d) rides" and "list_ex (\<lambda>r. startTimeMs r \<noteq> None) rides"
  shows "longestStreak rides = Inr 0"
proof -
  from ridesByDateLoop_single_date [OF assms] obtain m' where
    "ridesByDateLoop [] rides = Inr m'" "map fst m' = [d]" by (elim exE conjE)
  then show ?thesis
    by (simp add: longestStreak_def streakStats_single)
qed

text \<open>
  Claim C4, what the code computes. When the rides that have a start time all fall on
  one UTC date, and there is such a ride, the longest streak is 0, where the claim says
  1: the streak is only set inside \<open>if (rideDates.length > 1)\<close>. When the rides fall on
  at least two dates, the longest streak is the length of the longest run of consecutive
  days that all have a ride, as the claim says: there is a run of that length and none
  is longer.
\<close>

theorem longestStreak_by_ride_dates:
  "(list_all (onDay d) rides \<and> list_ex (\<lambda>r. startTimeMs r \<noteq> None) rides
      \<longrightarrow> longestStreak rides = Inr 0)
   \<and> (timestampsValid rides \<and> 2 \<le> card (set (rideDayList rides))
      \<longrightarrow> (\<exists>L. longestStreak rides = Inr (int L)
             \<and> (\<exists>d0. isStreak (set (rideDayList rides)) d0 L)
             \<and> (\<forall>d0 n. isStreak (set (rideDayList rides)) d0 n \<longrightarrow> n \<le> L)))"
  using longestStreak_single_date_zero [of d rides] longestStreak_max_run [of rides]
  by blast

text \<open>
  One ride: the streak is 0. Rides on days 0 and 5: each day is a streak of 1.
\<close>

theorem longestStreak_by_ride_dates_witness:
  "longestStreak [mkRide (Some ''Station A'') (Some ''Station B'') (Some 0) (Some 600000)] = Inr 0
   \<and> longestStreak [mkRide None None (Some 0) None, mkRide None None (Some 432000000) None] = Inr 1
   \<and> (\<exists>L. longestStreak [mkRide None None (Some 0) None, mkRide None None (Some 432000000) None]
             = Inr (int L)
          \<and> (\<exists>d0. isStreak {0, 5} d0 L))"
proof -
  let ?one = "[mkRide (Some ''Station A'') (Some ''Station B'') (Some 0) (Some 600000)]"
  let ?two = "[mkRide None None (Some 0) None, mkRide None None (Some 432000000) None]"
  have "list_all (onDay 0) ?one \<and> list_ex (\<lambda>r. startTimeMs r \<noteq> None) ?one"
    by (simp add: onDay_def mkRide_def)
  with longestStreak_by_ride_dates [of 0 ?one] have a: "longestStreak ?one = Inr 0"
    by blast
  have b: "longestStreak ?two = Inr 1"
    by code_simp
  have days: "rideDayList ?two = [0, 5]"
    by (simp add: rideDayList_def List.map_filter_simps mkRide_def)
  have "timestampsValid ?two"
    by (simp add: timestampsValid_def mkRide_def)
  moreover have "2 \<le> card (set (rideDayList ?two))"
    by (simp only: days) simp
  ultimately have "timestampsValid ?two \<and> 2 \<le> card (set (rideDayList ?two))" ..
  with longestStreak_by_ride_dates [of 0 ?two]
  have "\<exists>L. longestStreak ?two = Inr (int L) \<and> (\<exists>d0. isStreak (set (rideDayList ?two)) d0 L)"
    by blast
  then have c: "\<exists>L. longestStreak ?two = Inr (int L) \<and> (\<exists>d0. isStreak {0, 5} d0 L)"
    by (simp add: days insert_commute)
  from a b c show ?thesis by blast
qed

text \<open>
  The specification's scenario: rides on two consecutive days make a streak of 2, and a
  third ride three days later a break of 2 days.
\<close>

lemma streak_scenario:
  "longestStreak [mkRide None None (Some 0) None, mkRide None None (Some 86400000) None] = Inr 2"
  "longestBreakDays [mkRide None None (Some 0) None, mkRide None None (Some 86400000) None,
                     mkRide None None (Some 345600000) None] = Inr (Some 2)"
  by code_simp+

section \<open>Properties of the duration histogram\<close>

lemma foldl_min_le: "foldl min (a::int) xs \<le> a \<and> (\<forall>x \<in> set xs. foldl min a xs \<le> x)"
proof (induction xs arbitrary: a)
  case Nil
  show ?case by simp
next
  case (Cons y ys)
  from Cons [of "min a y"] show ?case by auto
qed

lemma foldl_min_mem: "foldl min (a::int) xs \<in> set (a # xs)"
proof (induction xs arbitrary: a)
  case Nil
  show ?case by simp
next
  case (Cons y ys)
  from Cons [of "min a y"] show ?case by (auto simp: min_def split: if_splits)
qed

lemma foldl_max_ge: "a \<le> foldl max (a::int) xs \<and> (\<forall>x \<in> set xs. x \<le> foldl max a xs)"
proof (induction xs arbitrary: a)
  case Nil
  show ?case by simp
next
  case (Cons y ys)
  from Cons [of "max a y"] show ?case by auto
qed

lemma foldl_max_mem: "foldl max (a::int) xs \<in> set (a # xs)"
proof (induction xs arbitrary: a)
  case Nil
  show ?case by simp
next
  case (Cons y ys)
  from Cons [of "max a y"] show ?case by (auto simp: max_def split: if_splits)
qed

lemma foldl_min_eq_Min: "foldl min (d::int) ds = Min (set (d # ds))"
proof -
  have "Min (set (d # ds)) = foldl min d ds"
  proof (rule Min_eqI)
    show "finite (set (d # ds))" by simp
    show "foldl min d ds \<le> y" if "y \<in> set (d # ds)" for y
      using that foldl_min_le [of d ds] by auto
    show "foldl min d ds \<in> set (d # ds)" by (rule foldl_min_mem)
  qed
  then show ?thesis by simp
qed

lemma foldl_max_eq_Max: "foldl max (d::int) ds = Max (set (d # ds))"
proof -
  have "Max (set (d # ds)) = foldl max d ds"
  proof (rule Max_eqI)
    show "finite (set (d # ds))" by simp
    show "y \<le> foldl max d ds" if "y \<in> set (d # ds)" for y
      using that foldl_max_ge [of d ds] by auto
    show "foldl max d ds \<in> set (d # ds)" by (rule foldl_max_mem)
  qed
  then show ?thesis by simp
qed

lemma Math_min_max_cases:
  "Math_min host d ds = (if length (d # ds) \<le> maxArguments host
                         then Inr (Min (set (d # ds))) else Inl RangeError)"
  "Math_max host d ds = (if length (d # ds) \<le> maxArguments host
                         then Inr (Max (set (d # ds))) else Inl RangeError)"
  by (simp_all add: Math_min_def Math_max_def foldl_min_eq_Min foldl_max_eq_Max del: foldl_Cons)

lemma sum_list_update_int:
  fixes xs :: "int list"
  shows "i < length xs \<Longrightarrow> sum_list (xs[i := v]) = sum_list xs - xs ! i + v"
proof (induction xs arbitrary: i)
  case Nil
  then show ?case by simp
next
  case (Cons x xs)
  then show ?case by (cases i) simp_all
qed

lemma incrementBin_props:
  assumes "0 \<le> k" and "k < int (length bins)"
  shows "length (incrementBin bins k) = length bins"
    and "sum_list (incrementBin bins k) = sum_list bins + 1"
    and "i < length bins \<Longrightarrow> incrementBin bins k ! i = bins ! i + (if k = int i then 1 else 0)"
proof -
  have n: "nat k < length bins" using assms by simp
  show "length (incrementBin bins k) = length bins"
    by (simp add: incrementBin_def)
  show "sum_list (incrementBin bins k) = sum_list bins + 1"
    using assms n by (simp add: incrementBin_def sum_list_update_int)
  show "incrementBin bins k ! i = bins ! i + (if k = int i then 1 else 0)" if "i < length bins"
  proof (cases "k = int i")
    case True
    then show ?thesis using assms that by (simp add: incrementBin_def)
  next
    case False
    then have "nat k \<noteq> i" using assms by auto
    then show ?thesis using assms that False by (simp add: incrementBin_def)
  qed
qed

lemma foldl_incrementBin:
  assumes "\<forall>x \<in> set xs. 0 \<le> f x \<and> f x < int (length bins)"
  shows "length (foldl (\<lambda>b x. incrementBin b (f x)) bins xs) = length bins
       \<and> sum_list (foldl (\<lambda>b x. incrementBin b (f x)) bins xs) = sum_list bins + int (length xs)
       \<and> (\<forall>i < length bins. foldl (\<lambda>b x. incrementBin b (f x)) bins xs ! i
              = bins ! i + int (length (filter (\<lambda>x. f x = int i) xs)))"
  using assms
proof (induction xs arbitrary: bins)
  case Nil
  show ?case by simp
next
  case (Cons x xs)
  have r: "0 \<le> f x" "f x < int (length bins)" using Cons.prems by simp_all
  note p = incrementBin_props [OF r]
  have "\<forall>y \<in> set xs. 0 \<le> f y \<and> f y < int (length (incrementBin bins (f x)))"
    using Cons.prems p(1) by simp
  from Cons.IH [OF this] show ?case
    using p by auto
qed

lemma div_eq_iff_bounds:
  fixes a q s :: int
  assumes "0 < s"
  shows "a div s = q \<longleftrightarrow> q * s \<le> a \<and> a < (q + 1) * s"
proof
  assume "a div s = q"
  then show "q * s \<le> a \<and> a < (q + 1) * s"
    using assms
    by (metis add.commute distrib_right mult.commute mult_1 pos_mod_bound pos_mod_sign
        mult_div_mod_eq add_less_cancel_left le_add_same_cancel1)
next
  assume b: "q * s \<le> a \<and> a < (q + 1) * s"
  have "a = s * q + (a - q * s)" by (simp add: algebra_simps)
  moreover have "0 \<le> a - q * s" "a - q * s < s"
    using b by (simp_all add: algebra_simps)
  ultimately show "a div s = q"
    using assms by (metis div_pos_pos_trivial div_mult_self2 add.commute add_0 less_irrefl)
qed

lemma Math_ceil_div:
  assumes "0 < s"
  shows "Math_ceil (real_of_int a / real_of_int s) = (if s dvd a then a div s else a div s + 1)"
proof -
  have "Math_ceil (real_of_int a / real_of_int s) = - ((- a) div s)"
    by (simp add: Math_ceil_def ceiling_divide_eq_div)
  also have "\<dots> = (if s dvd a then a div s else a div s + 1)"
    using assms by (simp add: zdiv_zminus1_eq_if dvd_eq_mod_eq_0)
  finally show ?thesis .
qed

lemma bucketWidthSeconds_pos: "0 < bucketWidthSeconds w"
  by (cases w) simp_all

lemma binIndex_div: "binIndex mn sz x = (x - mn) div sz"
  unfolding binIndex_def by (rule Math_floor_div)

lemma numBins_div:
  "0 < sz \<Longrightarrow> numBins mn mx sz
     = (if sz dvd (mx - mn) then (mx - mn) div sz + 1 else (mx - mn) div sz + 2)"
  unfolding numBins_def by (simp only: Math_ceil_div) simp

lemma binIndex_in_range:
  assumes "0 < sz" and "mn \<le> x" and "x \<le> mx"
  shows "min (binIndex mn sz x) (numBins mn mx sz - 1) = (x - mn) div sz"
    and "0 \<le> (x - mn) div sz"
    and "(x - mn) div sz < numBins mn mx sz"
proof -
  have a: "0 \<le> (x - mn) div sz"
    using assms by (simp add: pos_imp_zdiv_nonneg_iff)
  have b: "(x - mn) div sz \<le> (mx - mn) div sz"
    using assms by (simp add: zdiv_mono1)
  have c: "(mx - mn) div sz + 1 \<le> numBins mn mx sz"
    using assms(1) by (simp add: numBins_div)
  show "min (binIndex mn sz x) (numBins mn mx sz - 1) = (x - mn) div sz"
    using b c by (simp add: binIndex_div)
  show "0 \<le> (x - mn) div sz" by (rule a)
  show "(x - mn) div sz < numBins mn mx sz" using b c by simp
qed

lemma chartData_cases:
  assumes "durationsSeconds rides = d # ds"
  shows "chartData host w rides =
           (if length (durationsSeconds rides) \<le> maxArguments host
               \<and> binCount w rides \<le> 4294967295
               \<and> nat (binCount w rides) \<le> maxArrayLength host
            then Inr (Some
              \<lparr>labels = map (\<lambda>i. binLabel w (binStart w rides i)) [0..<nat (binCount w rides)],
               data = foldl (\<lambda>bins x. incrementBin bins
                               (min (binIndex (minDuration rides) (bucketWidthSeconds w) x)
                                    (binCount w rides - 1)))
                        (replicate (nat (binCount w rides)) 0) (d # ds)\<rparr>)
            else Inl RangeError)"
proof -
  have mn: "Min (set (d # ds)) = minDuration rides" and mx: "Max (set (d # ds)) = maxDuration rides"
    by (simp_all add: minDuration_def maxDuration_def assms)
  show ?thesis
    unfolding chartData_def assms list.case Math_min_max_cases mn mx
    by (simp add: js_bind_def newArrayFill0_def Let_def binCount_def binStart_def assms
        del: foldl.simps foldl_Cons)
qed

lemma chartData_value:
  assumes "durationsSeconds rides = d # ds"
      and "length (durationsSeconds rides) \<le> maxArguments host"
      and "binCount w rides \<le> 4294967295" and "nat (binCount w rides) \<le> maxArrayLength host"
  shows "chartData host w rides = Inr (Some
           \<lparr>labels = map (\<lambda>i. binLabel w (binStart w rides i)) [0..<nat (binCount w rides)],
            data = foldl (\<lambda>bins x. incrementBin bins ((x - minDuration rides) div bucketWidthSeconds w))
                     (replicate (nat (binCount w rides)) 0) (d # ds)\<rparr>)"
proof -
  let ?sz = "bucketWidthSeconds w"
  let ?mn = "minDuration rides" and ?mx = "maxDuration rides"
  let ?n = "numBins ?mn ?mx ?sz"
  have b: "\<forall>x \<in> set (d # ds). ?mn \<le> x \<and> x \<le> ?mx"
    by (simp add: minDuration_def maxDuration_def assms(1))
  have idx: "min (binIndex ?mn ?sz x) (?n - 1) = (x - ?mn) div ?sz" if "x \<in> set (d # ds)" for x
    using binIndex_in_range(1) [OF bucketWidthSeconds_pos, of ?mn x ?mx w] b that by blast
  have fold_eq: "foldl (\<lambda>bins x. incrementBin bins (min (binIndex ?mn ?sz x) (?n - 1))) b xs
        = foldl (\<lambda>bins x. incrementBin bins ((x - ?mn) div ?sz)) b xs"
    if "set xs \<subseteq> set (d # ds)" for b xs
    using that
  proof (induction xs arbitrary: b)
    case Nil
    show ?case by simp
  next
    case (Cons y ys)
    then have "y \<in> set (d # ds)" by auto
    from idx [OF this] Cons show ?case by simp
  qed
  show ?thesis
    unfolding chartData_cases [OF assms(1)]
    using assms(2-4) fold_eq [of "d # ds" "replicate (nat ?n) 0"]
    by (simp add: binCount_def del: foldl.simps foldl_Cons)
qed

lemma chartData_value':
  assumes "durationsSeconds rides \<noteq> []"
      and "length (durationsSeconds rides) \<le> maxArguments host"
      and "binCount w rides \<le> 4294967295" and "nat (binCount w rides) \<le> maxArrayLength host"
  shows "chartData host w rides = Inr (Some
           \<lparr>labels = map (\<lambda>i. binLabel w (binStart w rides i)) [0..<nat (binCount w rides)],
            data = foldl (\<lambda>bins x. incrementBin bins ((x - minDuration rides) div bucketWidthSeconds w))
                     (replicate (nat (binCount w rides)) 0) (durationsSeconds rides)\<rparr>)"
proof -
  from assms(1) obtain d ds where dd: "durationsSeconds rides = d # ds"
    by (cases "durationsSeconds rides") auto
  show ?thesis
    using chartData_value [OF dd assms(2-4)] unfolding dd [symmetric] .
qed

lemma chartData_Some_cases:
  assumes "chartData host w rides = Inr (Some cd)"
  shows "durationsSeconds rides \<noteq> []"
    and "length (durationsSeconds rides) \<le> maxArguments host"
    and "binCount w rides \<le> 4294967295" and "nat (binCount w rides) \<le> maxArrayLength host"
proof -
  from assms obtain d ds where dd: "durationsSeconds rides = d # ds"
    by (cases "durationsSeconds rides") (auto simp: chartData_def)
  then show "durationsSeconds rides \<noteq> []" by simp
  have "length (durationsSeconds rides) \<le> maxArguments host
               \<and> binCount w rides \<le> 4294967295
               \<and> nat (binCount w rides) \<le> maxArrayLength host"
    using assms unfolding chartData_cases [OF dd] by (simp split: if_splits)
  then show "length (durationsSeconds rides) \<le> maxArguments host"
    and "binCount w rides \<le> 4294967295" and "nat (binCount w rides) \<le> maxArrayLength host"
    by simp_all
qed

lemma durations_bounds:
  assumes "x \<in> set (durationsSeconds rides)"
  shows "minDuration rides \<le> x" and "x \<le> maxDuration rides"
  using assms by (simp_all add: minDuration_def maxDuration_def)

lemma maxDuration_mem:
  assumes "durationsSeconds rides \<noteq> []"
  shows "maxDuration rides \<in> set (durationsSeconds rides)"
  using assms by (simp add: maxDuration_def)

text \<open>
  Claim C6, as far as the code goes. When the histogram is produced, it has
  \<open>binCount\<close> labels and counts; bin \<open>i\<close> starts at the minimum duration plus \<open>i\<close>
  bucket widths, ends where bin \<open>i + 1\<close> starts, and counts the durations in that
  range; the counts add up to the number of rides with both timestamps. The maximum
  lies in bin \<open>(max - min) div width\<close>. This is the final bin only when the width
  divides \<open>max - min\<close>: otherwise one more bin is generated after it, and that final
  bin is empty.
\<close>

theorem chartData_bins:
  assumes "chartData host w rides = Inr (Some cd)"
  shows "length (labels cd) = nat (binCount w rides)
       \<and> length (data cd) = nat (binCount w rides)
       \<and> (\<forall>i < nat (binCount w rides).
             labels cd ! i = binLabel w (binStart w rides i)
             \<and> binStart w rides (i + 1) = binStart w rides i + bucketWidthSeconds w
             \<and> data cd ! i = int (length (filter (inBin w rides i) (durationsSeconds rides))))
       \<and> binStart w rides 0 = minDuration rides
       \<and> sum_list (data cd) = int (length (ridesWithDuration rides))
       \<and> inBin w rides (nat ((maxDuration rides - minDuration rides) div bucketWidthSeconds w))
            (maxDuration rides)
       \<and> binCount w rides
           = (if bucketWidthSeconds w dvd (maxDuration rides - minDuration rides)
              then (maxDuration rides - minDuration rides) div bucketWidthSeconds w + 1
              else (maxDuration rides - minDuration rides) div bucketWidthSeconds w + 2)
       \<and> (\<not> bucketWidthSeconds w dvd (maxDuration rides - minDuration rides)
            \<longrightarrow> data cd ! (nat (binCount w rides) - 1) = 0)"
proof -
  let ?sz = "bucketWidthSeconds w"
  let ?mn = "minDuration rides" and ?mx = "maxDuration rides"
  let ?n = "binCount w rides"
  let ?k = "(?mx - ?mn) div ?sz"
  let ?xs = "durationsSeconds rides"
  from chartData_Some_cases [OF assms] have
    ne: "?xs \<noteq> []" and args: "length ?xs \<le> maxArguments host"
    and small: "?n \<le> 4294967295" and alloc: "nat ?n \<le> maxArrayLength host" by auto
  have sz: "0 < ?sz" by (rule bucketWidthSeconds_pos)
  have mm: "?mn \<le> ?mx"
    using durations_bounds(1) [OF maxDuration_mem [OF ne]] .
  have n_eq: "?n = (if ?sz dvd (?mx - ?mn) then ?k + 1 else ?k + 2)"
    unfolding binCount_def by (rule numBins_div [OF sz])
  have k0: "0 \<le> ?k"
    using mm sz by (simp add: pos_imp_zdiv_nonneg_iff)
  have n_pos: "0 < ?n" using n_eq k0 by (simp split: if_splits)
  let ?f = "\<lambda>x. (x - ?mn) div ?sz"
  let ?empty = "replicate (nat ?n) (0::int)"
  let ?bins = "foldl (\<lambda>bins x. incrementBin bins (?f x)) ?empty ?xs"
  have cd: "cd = \<lparr>labels = map (\<lambda>i. binLabel w (binStart w rides i)) [0..<nat ?n], data = ?bins\<rparr>"
    using chartData_value' [OF ne args small alloc] assms by simp
  have rng: "\<forall>x \<in> set ?xs. 0 \<le> ?f x \<and> ?f x < int (length ?empty)"
  proof
    fix x assume x: "x \<in> set ?xs"
    note b = durations_bounds [OF x]
    from binIndex_in_range(2,3) [OF sz b] n_pos
    show "0 \<le> ?f x \<and> ?f x < int (length ?empty)"
      by (simp add: binCount_def)
  qed
  note F = foldl_incrementBin [OF rng]
  have len: "length ?bins = nat ?n" using F by simp
  have total: "sum_list ?bins = int (length ?xs)" using F by (simp add: sum_list_replicate)
  have bin_i: "?bins ! i = int (length (filter (inBin w rides i) ?xs))" if "i < nat ?n" for i
  proof -
    have "?bins ! i = ?empty ! i + int (length (filter (\<lambda>x. ?f x = int i) ?xs))"
      using F that by simp
    moreover have "(?f x = int i) = inBin w rides i x" for x
      using div_eq_iff_bounds [OF sz, of "x - ?mn" "int i"]
      by (simp add: inBin_def binStart_def algebra_simps)
    ultimately show ?thesis using that by simp
  qed
  have lenr: "length ?xs = length (ridesWithDuration rides)"
    by (simp add: durationsSeconds_def)
  have max_in: "inBin w rides (nat ?k) ?mx"
    using div_eq_iff_bounds [OF sz, of "?mx - ?mn" ?k] k0
    by (simp add: inBin_def binStart_def algebra_simps)
  have last_empty: "?bins ! (nat ?n - 1) = 0" if nd: "\<not> ?sz dvd (?mx - ?mn)"
  proof -
    have nk: "?n = ?k + 2" using n_eq nd by simp
    then have i: "nat ?n - 1 < nat ?n" using k0 by simp
    have "filter (inBin w rides (nat ?n - 1)) ?xs = []"
    proof (rule filter_False, rule ballI)
      fix x assume x: "x \<in> set ?xs"
      then have "x \<le> ?mx" by (rule durations_bounds(2))
      then have "?f x \<le> ?k" using sz by (simp add: zdiv_mono1)
      moreover have "int (nat ?n - 1) = ?k + 1" using nk k0 by simp
      ultimately have "?f x \<noteq> int (nat ?n - 1)" by simp
      then show "\<not> inBin w rides (nat ?n - 1) x"
        using div_eq_iff_bounds [OF sz, of "x - ?mn" "int (nat ?n - 1)"]
        by (simp add: inBin_def binStart_def algebra_simps)
    qed
    with bin_i [OF i] show ?thesis by simp
  qed
  show ?thesis
  proof (intro conjI allI impI)
    show "length (labels cd) = nat ?n" by (simp add: cd)
    show "length (data cd) = nat ?n" by (simp add: cd len)
    show "labels cd ! i = binLabel w (binStart w rides i)" if "i < nat ?n" for i
      using that by (simp add: cd)
    show "binStart w rides (i + 1) = binStart w rides i + ?sz" for i
      by (simp add: binStart_def algebra_simps)
    show "data cd ! i = int (length (filter (inBin w rides i) (durationsSeconds rides)))"
      if "i < nat ?n" for i
      using bin_i [OF that] by (simp add: cd)
    show "binStart w rides 0 = ?mn" by (simp add: binStart_def)
    show "sum_list (data cd) = int (length (ridesWithDuration rides))"
      using total lenr by (simp add: cd)
    show "inBin w rides (nat ?k) ?mx" by (rule max_in)
    show "?n = (if ?sz dvd (?mx - ?mn) then ?k + 1 else ?k + 2)" by (rule n_eq)
    show "data cd ! (nat ?n - 1) = 0" if "\<not> ?sz dvd (?mx - ?mn)"
      using last_empty [OF that] by (simp add: cd)
  qed
qed

text \<open>
  Durations of 65 s and 200 s with one-minute buckets: four bins starting at 65, 125,
  185 and 245 seconds, the maximum in the third, the fourth empty.
\<close>

theorem chartData_bins_witness:
  "chartData exampleHost W1m failingHistogramRides
     = Inr (Some \<lparr>labels = [''1 min'', ''2 min'', ''3 min'', ''4 min''], data = [1, 0, 1, 0]\<rparr>)
   \<and> nat (binCount W1m failingHistogramRides) = 4
   \<and> maxDuration failingHistogramRides = 200
   \<and> binStart W1m failingHistogramRides 3 = 245"
proof -
  have d: "durationsSeconds failingHistogramRides = [65, 200]"
    by code_simp
  have mm: "maxDuration failingHistogramRides = 200" "minDuration failingHistogramRides = 65"
    by (simp_all add: maxDuration_def minDuration_def d)
  have b: "binCount W1m failingHistogramRides = 4"
    by (simp add: binCount_def mm numBins_div)
  have l: "map (\<lambda>i. binLabel W1m (65 + int i * 60)) [0..<4]
           = [''1 min'', ''2 min'', ''3 min'', ''4 min'']"
    by code_simp
  have f: "foldl (\<lambda>bins x. incrementBin bins (min (binIndex 65 60 x) 3)) [0, 0, 0, 0] [65, 200]
           = [1, 0, 1, 0]"
    by code_simp
  have "nat 4 = (4::nat)" "replicate 4 (0::int) = [0, 0, 0, 0]"
    by (simp_all add: numeral_eq_Suc)
  then have c: "chartData exampleHost W1m failingHistogramRides
     = Inr (Some \<lparr>labels = [''1 min'', ''2 min'', ''3 min'', ''4 min''], data = [1, 0, 1, 0]\<rparr>)"
    unfolding chartData_cases [OF d] b mm
    by (simp add: d exampleHost_def binStart_def mm l f del: foldl.simps foldl_Cons upt.simps)
  have n: "nat (binCount W1m failingHistogramRides) = 4"
    using chartData_bins [OF c, THEN conjunct1] by simp
  show ?thesis
    using c n mm by (simp add: binStart_def)
qed

end
